theory Spec2Isabelle
  imports Main "HOL-Library.Multiset" "HOL-Library.Product_Lexorder" "HOL-Library.Option_ord"
begin

section \<open>JavaScript values used by the review code\<close>

text \<open>
  Strings are lists of code units; the review code only tests the ASCII prefix
  \<open>edited:\<close> and cuts it off, so one \<open>char\<close> per code unit is enough.
  A property that may be missing (\<open>undefined\<close>) is an \<open>option\<close>.
\<close>

text \<open>\<open>s.startsWith(p)\<close>\<close>

definition startsWith :: "string \<Rightarrow> string \<Rightarrow> bool" where
  "startsWith s p = (take (length p) s = p)"

text \<open>\<open>s.slice(n)\<close> for a non-negative \<open>n\<close>\<close>

definition slice :: "string \<Rightarrow> nat \<Rightarrow> string" where
  "slice s n = drop n s"

text \<open>\<open>!v\<close> for a value that is a string or \<open>undefined\<close>/\<open>null\<close>: the empty string is falsy.\<close>

fun js_not :: "string option \<Rightarrow> bool" where
  "js_not None = True"
| "js_not (Some s) = (s = [])"

text \<open>\<open>v || d\<close> for a string default \<open>d\<close>\<close>

definition js_or :: "string option \<Rightarrow> string \<Rightarrow> string" where
  "js_or v d = (if js_not v then d else the v)"

text \<open>\<open>s.replace(pat, rep)\<close> with a string pattern: the first occurrence only.\<close>

fun js_replace :: "string \<Rightarrow> string \<Rightarrow> string \<Rightarrow> string" where
  "js_replace pat rep [] = (if pat = [] then rep else [])"
| "js_replace pat rep (c # cs) =
     (if startsWith (c # cs) pat then rep @ drop (length pat) (c # cs)
      else c # js_replace pat rep cs)"

section \<open>The correction review session\<close>

text \<open>
  The review functions of the renderer script (\<open>src/src/preload.js\<close>, from
  \<open>handleCorrectionDecision\<close> to \<open>saveCorrectionReview\<close>).
\<close>

text \<open>One entry of \<open>uncertain_corrections\<close> as read from the corrections JSON file.\<close>

record correction =
  original :: "string option"
  corrected :: "string option"
  location :: "string option"
  category :: "string option"
  reason :: "string option"

text \<open>
  An element pushed on \<open>reviewResult.decisions\<close>: the spread correction with the two
  added properties.
\<close>

record review_decision =
  candidate :: correction
  decision :: string
  edited_value :: "string option"

record review_result =
  r_file :: string
  reviewed_at :: string
  decisions_of :: "review_decision list"

text \<open>An element pushed on \<open>correctionsToLearn\<close>.\<close>

record learn_record =
  l_original :: "string option"
  l_corrected :: "string option"
  l_file_path :: string
  l_context :: string
  l_category :: string
  l_reason :: string
  l_decision :: string

datatype alert = SelectFileFirst | ReviewSaved | SaveFailed string

datatype console_msg = LogCollected nat | WarnCollectFailed

text \<open>
  \<open>correctionState\<close> together with what the review functions act on outside it: the
  JSON files written through \<open>writeJsonFile\<close>, the arguments of every call of
  \<open>collectCorrections\<close>, the alerts shown, the console and the \<open>hidden\<close> class of
  the review modal (an element of the page).
\<close>

record review_world =
  currentFile :: "string option"
  corrections :: "correction list"
  decisions :: "nat \<rightharpoonup> string"
  disk :: "string \<rightharpoonup> review_result"
  collect_calls :: "learn_record list list"
  alerts :: "alert list"
  console :: "console_msg list"
  modal_hidden :: bool

text \<open>
  What the renderer cannot decide itself: the folder field, the clock, whether the write
  rejects (with the message of its error) and whether the collector call resolves
  (\<open>True\<close>) or rejects.
\<close>

record save_env =
  folderPath :: string
  now_iso :: string
  writeJsonFile :: "string \<Rightarrow> review_result \<Rightarrow> string option"
  collectCorrections :: "learn_record list \<Rightarrow> bool"

text \<open>\<open>handleCorrectionDecision(index, decision)\<close>; the re-rendering only reads the state.\<close>

definition handleCorrectionDecision :: "nat \<Rightarrow> string \<Rightarrow> review_world \<Rightarrow> review_world" where
  "handleCorrectionDecision index d w = w\<lparr>decisions := (decisions w)(index \<mapsto> d)\<rparr>"

text \<open>The \<open>forEach\<close> of \<open>confirmAllCorrections\<close>, from position \<open>index\<close> on.\<close>

fun confirmAll_forEach :: "correction list \<Rightarrow> nat \<Rightarrow> (nat \<rightharpoonup> string) \<Rightarrow> (nat \<rightharpoonup> string)" where
  "confirmAll_forEach [] index ds = ds"
| "confirmAll_forEach (c # cs) index ds =
     confirmAll_forEach cs (Suc index)
       (if js_not (ds index) then ds(index \<mapsto> ''confirmed'') else ds)"

definition confirmAllCorrections :: "review_world \<Rightarrow> review_world" where
  "confirmAllCorrections w =
     w\<lparr>decisions := confirmAll_forEach (corrections w) 0 (decisions w)\<rparr>"

text \<open>
  The \<open>forEach\<close> of \<open>saveCorrectionReview\<close>, from position \<open>index\<close> on; the pair holds
  \<open>reviewResult.decisions\<close> and \<open>correctionsToLearn\<close>, and \<open>push\<close> appends.
\<close>

fun save_forEach ::
  "string \<Rightarrow> (nat \<rightharpoonup> string) \<Rightarrow> correction list \<Rightarrow> nat \<Rightarrow>
   review_decision list \<times> learn_record list \<Rightarrow> review_decision list \<times> learn_record list" where
  "save_forEach f ds [] index acc = acc"
| "save_forEach f ds (c # cs) index (entries, toLearn) =
     (let d = js_or (ds index) ''pending'';
          isEdited = startsWith d ''edited:'';
          entries' = entries @
            [\<lparr>candidate = c,
              decision = (if isEdited then ''edited'' else d),
              edited_value = (if isEdited then Some (slice d 7) else None)\<rparr>];
          toLearn' =
            (if d = ''confirmed'' \<or> isEdited
             then toLearn @
               [\<lparr>l_original = original c,
                 l_corrected = (if isEdited then Some (slice d 7) else corrected c),
                 l_file_path = f,
                 l_context = js_or (location c) '''',
                 l_category = js_or (category c) ''unknown'',
                 l_reason = js_or (reason c) '''',
                 l_decision = (if isEdited then ''edited'' else ''confirmed'')\<rparr>]
             else toLearn)
      in save_forEach f ds cs (Suc index) (entries', toLearn'))"

definition reviewPath :: "save_env \<Rightarrow> string \<Rightarrow> string" where
  "reviewPath env f =
     folderPath env @ ''/Final_Reviewed_Gemini/'' @ js_replace ''.html'' ''_review.json'' f"

definition saveCorrectionReview :: "save_env \<Rightarrow> review_world \<Rightarrow> review_world" where
  "saveCorrectionReview env w =
     (if js_not (currentFile w) then w\<lparr>alerts := alerts w @ [SelectFileFirst]\<rparr>
      else
        let f = the (currentFile w);
            (entries, toLearn) = save_forEach f (decisions w) (corrections w) 0 ([], []);
            reviewResult = \<lparr>r_file = f, reviewed_at = now_iso env, decisions_of = entries\<rparr>
        in case writeJsonFile env (reviewPath env f) reviewResult of
             Some msg \<Rightarrow> w\<lparr>alerts := alerts w @ [SaveFailed msg]\<rparr>
           | None \<Rightarrow>
               (let w1 = w\<lparr>disk := (disk w)(reviewPath env f \<mapsto> reviewResult)\<rparr>;
                    w2 = (if length toLearn > 0
                          then w1\<lparr>collect_calls := collect_calls w1 @ [toLearn],
                                 console := console w1 @
                                   [if collectCorrections env toLearn
                                    then LogCollected (length toLearn)
                                    else WarnCollectFailed]\<rparr>
                          else w1)
                in w2\<lparr>alerts := alerts w2 @ [ReviewSaved], modal_hidden := True\<rparr>))"

text \<open>
  The records passed to \<open>collectCorrections\<close> by one run of \<open>saveCorrectionReview\<close>:
  the calls it adds to the log (at most one), concatenated.
\<close>

definition forwarded_by :: "save_env \<Rightarrow> review_world \<Rightarrow> learn_record list" where
  "forwarded_by env w =
     concat (drop (length (collect_calls w)) (collect_calls (saveCorrectionReview env w)))"

text \<open>The three decisions the buttons of the review list can record.\<close>

definition decided :: "string \<Rightarrow> bool" where
  "decided d = (d = ''confirmed'' \<or> d = ''rejected'' \<or> startsWith d ''edited:'')"

text \<open>A session of three candidates: two confirmed, one rejected.\<close>

definition example_env :: save_env where
  "example_env = \<lparr>folderPath = ''/out'', now_iso = ''2024-01-01T00:00:00.000Z'',
     writeJsonFile = (\<lambda>p r. None), collectCorrections = (\<lambda>ls. False)\<rparr>"

definition example_correction :: "string \<Rightarrow> string \<Rightarrow> correction" where
  "example_correction a b =
     \<lparr>original = Some a, corrected = Some b, location = None, category = None, reason = None\<rparr>"

definition example_session :: review_world where
  "example_session =
     \<lparr>currentFile = Some ''a.html'',
      corrections = [example_correction ''x1'' ''y1'', example_correction ''x2'' ''y2'',
                     example_correction ''x3'' ''y3''],
      decisions = [0 \<mapsto> ''confirmed'', 1 \<mapsto> ''rejected'', 2 \<mapsto> ''confirmed''],
      disk = Map.empty, collect_calls = [], alerts = [], console = [], modal_hidden = False\<rparr>"

text \<open>
  The recorded decisions that count as confirmed or edited: \<open>confirmed\<close> itself, or a
  string that begins with the seven characters \<open>edited:\<close>.
\<close>

definition learnable :: "(nat \<rightharpoonup> string) \<Rightarrow> nat \<Rightarrow> bool" where
  "learnable ds i =
     (case ds i of None \<Rightarrow> False | Some d \<Rightarrow> d = ''confirmed'' \<or> take 7 d = ''edited:'')"

text \<open>
  A session of four candidates: one edited to \<open>new\<close>, one rejected, one without
  decision, one confirmed.
\<close>

definition example_session_edit :: review_world where
  "example_session_edit =
     \<lparr>currentFile = Some ''b.html'',
      corrections = [example_correction ''x1'' ''y1'', example_correction ''x2'' ''y2'',
                     example_correction ''x3'' ''y3'', example_correction ''x4'' ''y4''],
      decisions = [0 \<mapsto> ''edited:new'', 1 \<mapsto> ''rejected'', 3 \<mapsto> ''confirmed''],
      disk = Map.empty, collect_calls = [], alerts = [], console = [], modal_hidden = False\<rparr>"


section \<open>The PDF classifier\<close>

text \<open>
  The routing table (3.1.1) and \<open>_analyze_pdf\<close> (3.1.2) of the design document
  (\<open>src/unnamed/part_001\<close>).
\<close>

text \<open>
  \<open>_analyze_pdf\<close> works on the opened document. A page is modelled by the result of its
  \<open>extract_text()\<close>: the text, a sequence of characters of any kind, or \<open>None\<close>.
\<close>

definition analyze_pdf :: "'c list option list \<Rightarrow> bool" where
  "analyze_pdf pages =
     (let sample_pages = take 3 pages;
          total_text_len = sum_list (map (\<lambda>page. length (case page of None \<Rightarrow> [] | Some t \<Rightarrow>
                                                              if t = [] then [] else t))
                                         sample_pages);
          is_digital = total_text_len > 100
      in is_digital)"

text \<open>The rows of the routing table.\<close>

datatype file_kind = XLSX | DOCX | PPTX | HWPX | PDF_digital | PDF_image | HWP

datatype route = Local | API

fun routing :: "file_kind \<Rightarrow> route" where
  "routing XLSX = Local"
| "routing DOCX = Local"
| "routing PPTX = Local"
| "routing HWPX = Local"
| "routing PDF_digital = Local"
| "routing PDF_image = API"
| "routing HWP = API"

text \<open>The kind of a PDF is decided by \<open>_analyze_pdf\<close>, its route by the table.\<close>

definition classify_pdf :: "'c list option list \<Rightarrow> file_kind \<times> route" where
  "classify_pdf pages =
     (let kind = (if analyze_pdf pages then PDF_digital else PDF_image)
      in (kind, routing kind))"

text \<open>The text of the sampled pages, concatenated.\<close>

definition sampled_text :: "'c list option list \<Rightarrow> 'c list" where
  "sampled_text pages = concat (map (\<lambda>page. case page of None \<Rightarrow> [] | Some t \<Rightarrow> t) (take 3 pages))"

section \<open>The credit check of the main process\<close>

text \<open>\<open>getPythonCommand\<close> and the handler of \<open>check-credits\<close> in \<open>src/src/main.js\<close>.\<close>

text \<open>
  The values a handler resolves with. Numbers are kept integral: no statement here reads
  one.
\<close>

datatype json = JNull | JBool bool | JNum int | JStr string | JArr "json list"
  | JObj "(string \<times> json) list"

text \<open>Reading a property of a value: \<open>v.k\<close>, \<open>None\<close> for \<open>undefined\<close>.\<close>

fun js_get :: "json \<Rightarrow> string \<Rightarrow> json option" where
  "js_get (JObj kvs) k = map_of kvs k"
| "js_get v k = None"

text \<open>\<open>s.includes(sub)\<close>\<close>

fun js_includes :: "string \<Rightarrow> string \<Rightarrow> bool" where
  "js_includes [] sub = (sub = [])"
| "js_includes (c # cs) sub = (startsWith (c # cs) sub \<or> js_includes cs sub)"

text \<open>
  What the main process gets from outside: \<open>execSync\<close> on a command line (its output, or
  \<open>None\<close> when it throws), the chunks a spawned process writes to its standard output
  before it closes, \<open>JSON.parse\<close> (\<open>None\<close> when it throws), \<open>path.join\<close>, the
  engine directory and \<open>String\<close> on the page count.
\<close>

record 'p main_env =
  execSync :: "string \<Rightarrow> string option"
  spawn_stdout :: "string \<Rightarrow> string list \<Rightarrow> string list"
  JSON_parse :: "string \<Rightarrow> json option"
  path_join :: "string \<Rightarrow> string \<Rightarrow> string"
  enginePath :: string
  String_of :: "'p \<Rightarrow> string"

text \<open>The loop of \<open>getPythonCommand\<close> over the candidate commands.\<close>

fun getPythonCommand_for :: "(string \<Rightarrow> string option) \<Rightarrow> string list \<Rightarrow> string option" where
  "getPythonCommand_for ex [] = None"
| "getPythonCommand_for ex (cmd # cmds) =
     (case ex (cmd @ '' --version'') of
        None \<Rightarrow> getPythonCommand_for ex cmds
      | Some result \<Rightarrow>
          if js_includes result ''Python 3'' then Some cmd else getPythonCommand_for ex cmds)"

definition getPythonCommand :: "'p main_env \<Rightarrow> string option" where
  "getPythonCommand env = getPythonCommand_for (execSync env) [''python3'', ''python'', ''py'']"

text \<open>The standard output of \<open>credit_manager.py check\<close> with the page count, collected until close.\<close>

definition check_output :: "'p main_env \<Rightarrow> string \<Rightarrow> 'p \<Rightarrow> string" where
  "check_output env pythonCmd pageCount =
     (let scriptPath = path_join env (enginePath env) ''credit_manager.py''
      in foldl (\<lambda>output d. output @ d) []
           (spawn_stdout env pythonCmd [scriptPath, ''check'', String_of env pageCount]))"

text \<open>The handler of \<open>check-credits\<close>: the value its promise resolves with.\<close>

definition check_credits :: "'p main_env \<Rightarrow> 'p \<Rightarrow> json" where
  "check_credits env pageCount =
     (case getPythonCommand env of
        None \<Rightarrow> JObj [(''has_credits'', JBool False), (''message'', JStr ''Python not found'')]
      | Some pythonCmd \<Rightarrow>
          (case JSON_parse env (check_output env pythonCmd pageCount) of
             Some result \<Rightarrow> result
           | None \<Rightarrow> JObj [(''has_credits'', JBool False)]))"

text \<open>Two environments: one without any interpreter, one whose interpreter prints no JSON.\<close>

definition env_no_python :: "nat main_env" where
  "env_no_python =
     \<lparr>execSync = (\<lambda>c. if c = ''python --version'' then Some ''Python 2.7.18'' else None),
      spawn_stdout = (\<lambda>c args. []), JSON_parse = (\<lambda>s. None),
      path_join = (\<lambda>a b. a @ ''/'' @ b), enginePath = ''engine'', String_of = (\<lambda>n. ''7'')\<rparr>"

definition env_bad_output :: "nat main_env" where
  "env_bad_output =
     \<lparr>execSync = (\<lambda>c. if c = ''python3 --version'' then Some ''Python 3.11.4'' else None),
      spawn_stdout = (\<lambda>c args. [''Traceback '', ''(most recent call last)'']),
      JSON_parse = (\<lambda>s. None),
      path_join = (\<lambda>a b. a @ ''/'' @ b), enginePath = ''engine'', String_of = (\<lambda>n. ''7'')\<rparr>"

section \<open>The error pattern store\<close>

text \<open>
  The table \<open>error_patterns\<close>, its unique index, the insert of the sample data and the
  view \<open>pattern_effectiveness_ranking\<close> of \<open>src/server/supabase_schema.sql\<close>.
\<close>

text \<open>
  A row of \<open>error_patterns\<close>. A string holds one element per character. The columns
  \<open>original\<close>, \<open>corrected\<close> and \<open>source\<close> are \<open>NOT NULL\<close>; every other column
  modelled as an \<open>option\<close> may be \<open>NULL\<close> (\<open>None\<close>), the counters and the flag
  included, whose defaults only apply when an insert leaves them out.
  \<open>TIMESTAMPTZ\<close> is a point on a discrete clock.
\<close>

type_synonym timestamptz = nat

record error_pattern =
  p_id :: nat
  p_original :: string
  p_corrected :: string
  p_source :: string
  p_category :: "string option"
  p_context :: "string option"
  p_reason :: "string option"
  frequency :: "int option"
  usage_count :: "int option"
  is_active :: "bool option"
  last_used :: "timestamptz option"
  created_at :: timestamptz
  updated_at :: timestamptz

text \<open>
  The errors a statement can raise here: 23505 on the unique index, 22003 for an
  \<open>INTEGER\<close> out of range, 22001 for a string too long for its column.
\<close>

datatype pg_error = unique_violation | numeric_value_out_of_range | string_data_right_truncation

definition pg_bind :: "pg_error + 'a \<Rightarrow> ('a \<Rightarrow> pg_error + 'b) \<Rightarrow> pg_error + 'b" where
  "pg_bind m f = (case m of Inl e \<Rightarrow> Inl e | Inr x \<Rightarrow> f x)"

text \<open>The values of a 32-bit \<open>INTEGER\<close>.\<close>

definition int4 :: "int \<Rightarrow> bool" where
  "int4 x = (- 2147483648 \<le> x \<and> x \<le> 2147483647)"

text \<open>
  \<open>*\<close> and \<open>+\<close> on \<open>INTEGER\<close>: \<open>NULL\<close> when an operand is \<open>NULL\<close>, an error when
  the result leaves the range.
\<close>

definition int4mul :: "int option \<Rightarrow> int option \<Rightarrow> pg_error + int option" where
  "int4mul a b =
     (case a of None \<Rightarrow> Inr None
      | Some x \<Rightarrow> (case b of None \<Rightarrow> Inr None
                    | Some y \<Rightarrow> if int4 (x * y) then Inr (Some (x * y))
                                else Inl numeric_value_out_of_range))"

definition int4pl :: "int option \<Rightarrow> int option \<Rightarrow> pg_error + int option" where
  "int4pl a b =
     (case a of None \<Rightarrow> Inr None
      | Some x \<Rightarrow> (case b of None \<Rightarrow> Inr None
                    | Some y \<Rightarrow> if int4 (x + y) then Inr (Some (x + y))
                                else Inl numeric_value_out_of_range))"

text \<open>A row of the view \<open>pattern_effectiveness_ranking\<close>.\<close>

record ranking_row =
  v_id :: nat
  v_original :: string
  v_corrected :: string
  v_source :: string
  v_category :: "string option"
  v_frequency :: "int option"
  v_usage_count :: "int option"
  effectiveness_score :: "int option"
  v_is_active :: "bool option"
  v_last_used :: "timestamptz option"
  v_created_at :: timestamptz

text \<open>The select list of the view, with \<open>(usage_count * 2 + frequency)\<close> as the score.\<close>

definition ranking_select :: "error_pattern \<Rightarrow> pg_error + ranking_row" where
  "ranking_select p =
     pg_bind (int4mul (usage_count p) (Some 2)) (\<lambda>m.
     pg_bind (int4pl m (frequency p)) (\<lambda>score.
       Inr \<lparr>v_id = p_id p, v_original = p_original p, v_corrected = p_corrected p,
            v_source = p_source p, v_category = p_category p, v_frequency = frequency p,
            v_usage_count = usage_count p,
            effectiveness_score = score,
            v_is_active = is_active p, v_last_used = last_used p,
            v_created_at = created_at p\<rparr>))"

text \<open>
  \<open>FROM error_patterns WHERE is_active = true\<close> with the select list, in table order: a
  row whose flag is \<open>NULL\<close> or false is skipped before its score is computed; an
  error in one row fails the query.
\<close>

fun ranking_rows :: "error_pattern list \<Rightarrow> pg_error + ranking_row list" where
  "ranking_rows [] = Inr []"
| "ranking_rows (p # ps) =
     (if is_active p = Some True
      then pg_bind (ranking_select p) (\<lambda>r. pg_bind (ranking_rows ps) (\<lambda>rs. Inr (r # rs)))
      else ranking_rows ps)"

text \<open>
  \<open>ORDER BY effectiveness_score DESC\<close>: \<open>a\<close> may stand before \<open>b\<close>. In descending order
  \<open>NULL\<close> comes first.
\<close>

definition score_desc :: "ranking_row \<Rightarrow> ranking_row \<Rightarrow> bool" where
  "score_desc a b =
     (case effectiveness_score a of None \<Rightarrow> True
      | Some x \<Rightarrow> (case effectiveness_score b of None \<Rightarrow> False | Some y \<Rightarrow> y \<le> x))"

text \<open>
  The view, as the results a query of it may give: the error of the rows, or the rows
  in any order that \<open>ORDER BY\<close> admits (it leaves the order of equal scores open).
\<close>

definition pattern_effectiveness_ranking ::
  "error_pattern list \<Rightarrow> pg_error + ranking_row list \<Rightarrow> bool" where
  "pattern_effectiveness_ranking tbl res =
     (case ranking_rows tbl of
        Inl e \<Rightarrow> res = Inl e
      | Inr rows \<Rightarrow>
          (case res of Inl e \<Rightarrow> False
           | Inr out \<Rightarrow> mset out = mset rows \<and> sorted_wrt score_desc out))"

text \<open>The columns of the unique index \<open>idx_patterns_unique\<close>, and the index as a constraint.\<close>

definition triple :: "error_pattern \<Rightarrow> string \<times> string \<times> string" where
  "triple p = (p_original p, p_corrected p, p_source p)"

definition idx_patterns_unique :: "error_pattern list \<Rightarrow> bool" where
  "idx_patterns_unique tbl = distinct (map triple tbl)"

text \<open>
  Storing a string in a \<open>VARCHAR(n)\<close> column: a longer string is an error, unless all
  that exceeds \<open>n\<close> characters is spaces, which are cut off.
\<close>

definition varchar :: "nat \<Rightarrow> string \<Rightarrow> pg_error + string" where
  "varchar n s =
     (if length s \<le> n then Inr s
      else if list_all (\<lambda>c. c = CHR '' '') (drop n s) then Inr (take n s)
      else Inl string_data_right_truncation)"

definition varchar_null :: "nat \<Rightarrow> string option \<Rightarrow> pg_error + string option" where
  "varchar_null n v =
     (case v of None \<Rightarrow> Inr None | Some s \<Rightarrow> pg_bind (varchar n s) (\<lambda>s'. Inr (Some s')))"

text \<open>Storing a number in an \<open>INTEGER\<close> column.\<close>

definition integer_null :: "int option \<Rightarrow> pg_error + int option" where
  "integer_null v =
     (case v of None \<Rightarrow> Inr None
      | Some x \<Rightarrow> if int4 x then Inr (Some x) else Inl numeric_value_out_of_range)"

text \<open>The row as its columns store it.\<close>

definition store_row :: "error_pattern \<Rightarrow> pg_error + error_pattern" where
  "store_row r =
     pg_bind (varchar 500 (p_original r)) (\<lambda>orig.
     pg_bind (varchar 500 (p_corrected r)) (\<lambda>corr.
     pg_bind (varchar 50 (p_source r)) (\<lambda>src.
     pg_bind (varchar_null 100 (p_category r)) (\<lambda>cat.
     pg_bind (integer_null (frequency r)) (\<lambda>f.
     pg_bind (integer_null (usage_count r)) (\<lambda>u.
       Inr (r\<lparr>p_original := orig, p_corrected := corr, p_source := src, p_category := cat,
              frequency := f, usage_count := u\<rparr>)))))))"

text \<open>\<open>INSERT INTO error_patterns\<close> of one row, under the unique index.\<close>

definition insert_row :: "error_pattern \<Rightarrow> error_pattern list \<Rightarrow> pg_error + error_pattern list" where
  "insert_row r tbl =
     pg_bind (store_row r) (\<lambda>r'.
       if triple r' \<in> set (map triple tbl) then Inl unique_violation else Inr (tbl @ [r']))"

text \<open>
  The same with \<open>ON CONFLICT DO NOTHING\<close>, as the sample data are inserted: a row in
  conflict with the index is skipped.
\<close>

definition insert_on_conflict_do_nothing ::
  "error_pattern \<Rightarrow> error_pattern list \<Rightarrow> pg_error + error_pattern list" where
  "insert_on_conflict_do_nothing r tbl =
     pg_bind (store_row r) (\<lambda>r'.
       if triple r' \<in> set (map triple tbl) then Inr tbl else Inr (tbl @ [r']))"

text \<open>
  The row an insert of (original, corrected, source, category, reason) asks for: the
  other columns take their defaults.
\<close>

definition new_pattern ::
  "nat \<Rightarrow> timestamptz \<Rightarrow> string \<Rightarrow> string \<Rightarrow> string \<Rightarrow> string option \<Rightarrow> string option \<Rightarrow> error_pattern" where
  "new_pattern new_id now orig corr src cat rsn =
     \<lparr>p_id = new_id, p_original = orig, p_corrected = corr, p_source = src,
      p_category = cat, p_context = None, p_reason = rsn,
      frequency = Some 1, usage_count = Some 0, is_active = Some True, last_used = None,
      created_at = now, updated_at = now\<rparr>"

text \<open>
  Modelled from the spec: the update half of \<open>record\<close> (4.4), "increments frequency on an
  existing (original, corrected, source) triple"; the code is not among the sources. The
  update is \<open>frequency = frequency + 1\<close> on the rows of the triple, on the schema's
  \<open>INTEGER\<close> column and through the schema's trigger, which sets \<open>updated_at\<close>.
\<close>

fun bump_frequency ::
  "timestamptz \<Rightarrow> string \<times> string \<times> string \<Rightarrow> error_pattern list \<Rightarrow> pg_error + error_pattern list" where
  "bump_frequency now t [] = Inr []"
| "bump_frequency now t (p # ps) =
     (if triple p = t
      then pg_bind (int4pl (frequency p) (Some 1)) (\<lambda>f.
           pg_bind (bump_frequency now t ps) (\<lambda>ps'.
             Inr (p\<lparr>frequency := f, updated_at := now\<rparr> # ps')))
      else pg_bind (bump_frequency now t ps) (\<lambda>ps'. Inr (p # ps')))"

text \<open>
  Modelled from the spec: \<open>record(original, corrected, source, category, reason)\<close> of the
  Pattern Store (4.4), whose code is not among the sources: it "inserts a new
  ErrorPattern or increments frequency on an existing (original, corrected, source)
  triple". The insert is the one of the schema, with its column types.
\<close>

definition record_pattern ::
  "nat \<Rightarrow> timestamptz \<Rightarrow> string \<Rightarrow> string \<Rightarrow> string \<Rightarrow> string option \<Rightarrow> string option \<Rightarrow>
   error_pattern list \<Rightarrow> pg_error + error_pattern list" where
  "record_pattern new_id now orig corr src cat rsn tbl =
     pg_bind (store_row (new_pattern new_id now orig corr src cat rsn)) (\<lambda>r'.
       if triple r' \<in> set (map triple tbl) then bump_frequency now (triple r') tbl
       else Inr (tbl @ [r']))"

text \<open>
  The statements that add to the table: a plain insert, the insert of the sample data and
  \<open>record\<close>. A statement that raises an error leaves the table as it was.
\<close>

datatype store_op =
    Insert error_pattern
  | InsertOnConflictDoNothing error_pattern
  | RecordPattern nat timestamptz string string string "string option" "string option"

fun run_statement :: "store_op \<Rightarrow> error_pattern list \<Rightarrow> pg_error + error_pattern list" where
  "run_statement (Insert r) tbl = insert_row r tbl"
| "run_statement (InsertOnConflictDoNothing r) tbl = insert_on_conflict_do_nothing r tbl"
| "run_statement (RecordPattern new_id now orig corr src cat rsn) tbl =
     record_pattern new_id now orig corr src cat rsn tbl"

definition apply_store_op :: "store_op \<Rightarrow> error_pattern list \<Rightarrow> error_pattern list" where
  "apply_store_op op tbl = (case run_statement op tbl of Inl e \<Rightarrow> tbl | Inr tbl' \<Rightarrow> tbl')"

text \<open>The table after a sequence of statements.\<close>

fun run_store :: "store_op list \<Rightarrow> error_pattern list \<Rightarrow> error_pattern list" where
  "run_store [] tbl = tbl"
| "run_store (op # ops) tbl = run_store ops (apply_store_op op tbl)"

text \<open>
  Modelled from the spec: the effectiveness of a pattern (glossary),
  \<open>usage_count \<times> 2 + frequency\<close>, as the prompt builder that is not among the sources
  ranks by it: the exact number, and none when a counter is \<open>NULL\<close>.
\<close>

definition effectiveness :: "error_pattern \<Rightarrow> int option" where
  "effectiveness p =
     (case usage_count p of None \<Rightarrow> None
      | Some u \<Rightarrow> (case frequency p of None \<Rightarrow> None | Some f \<Rightarrow> Some (u * 2 + f)))"

text \<open>
  Modelled from the spec: the ranking of \<open>buildPrompt\<close> (4.4), "ranked by effectiveness,
  descending, ties broken by most-recent last-used"; the code is not among the sources.
  A pattern without effectiveness ranks below every other, and a pattern never used
  (\<open>last_used\<close> \<open>NULL\<close>) counts as used before all others.
\<close>

definition rank_key :: "error_pattern \<Rightarrow> int option \<times> timestamptz option" where
  "rank_key p = (effectiveness p, last_used p)"

text \<open>
  Modelled from the spec: the active patterns of one source in the order of
  \<open>buildPrompt\<close>, best first.
\<close>

definition ranked_patterns :: "string \<Rightarrow> error_pattern list \<Rightarrow> error_pattern list" where
  "ranked_patterns source tbl =
     rev (sort_key rank_key (filter (\<lambda>p. is_active p = Some True \<and> p_source p = source) tbl))"

text \<open>
  Modelled from the spec: \<open>buildPrompt(source, limit)\<close> (4.4) "returns the top-limit
  active patterns" of that ranking; the code is not among the sources.
\<close>

definition buildPrompt :: "string \<Rightarrow> nat \<Rightarrow> error_pattern list \<Rightarrow> error_pattern list" where
  "buildPrompt source limit tbl = take limit (ranked_patterns source tbl)"

text \<open>
  One pattern ranks before another: higher effectiveness, or equal effectiveness and
  used no earlier.
\<close>

definition ranks_before :: "error_pattern \<Rightarrow> error_pattern \<Rightarrow> bool" where
  "ranks_before a b =
     (effectiveness b < effectiveness a
      \<or> (effectiveness a = effectiveness b \<and> last_used b \<le> last_used a))"

text \<open>Sample patterns of one source: the other columns vary.\<close>

definition sample_pattern ::
  "nat \<Rightarrow> string \<Rightarrow> int option \<Rightarrow> int option \<Rightarrow> timestamptz option \<Rightarrow> bool \<Rightarrow> error_pattern" where
  "sample_pattern i orig u f lu act =
     \<lparr>p_id = i, p_original = orig, p_corrected = ''je1jo'',
      p_source = ''image_pdf'', p_category = Some ''ocr'', p_context = None, p_reason = None,
      frequency = f, usage_count = u, is_active = Some act, last_used = lu,
      created_at = 0, updated_at = 0\<rparr>"

text \<open>
  A table with three active patterns of equal effectiveness 7, one inactive pattern and
  one pattern never used.
\<close>

definition sample_table :: "error_pattern list" where
  "sample_table =
     [sample_pattern 1 ''a'' (Some 1) (Some 5) (Some 30) True,
      sample_pattern 2 ''b'' (Some 3) (Some 1) (Some 10) True,
      sample_pattern 3 ''c'' (Some 9) (Some 9) (Some 40) False,
      sample_pattern 4 ''d'' (Some 2) (Some 3) (Some 20) True,
      sample_pattern 5 ''e'' (Some 0) (Some 1) None True]"


definition maxed_pattern :: error_pattern where
  "maxed_pattern = sample_pattern 7 ''g'' (Some 0) (Some 2147483647) None True"

text \<open>The row of the view for a sample pattern with a given score.\<close>

definition sample_row ::
  "nat \<Rightarrow> string \<Rightarrow> int option \<Rightarrow> int option \<Rightarrow> int option \<Rightarrow> timestamptz option \<Rightarrow> ranking_row" where
  "sample_row i orig u f score lu =
     \<lparr>v_id = i, v_original = orig, v_corrected = ''je1jo'', v_source = ''image_pdf'',
      v_category = Some ''ocr'', v_frequency = f, v_usage_count = u,
      effectiveness_score = score, v_is_active = Some True, v_last_used = lu,
      v_created_at = 0\<rparr>"


section \<open>The credit ledger\<close>

text \<open>
  Modelled from the spec: the account record of the ledger (3, 6), kept by
  \<open>credit_manager.py\<close>, which is not among the sources: email, balance and cumulative
  use. The administrator flag is decided by the allow-list below.
\<close>

record credit_account =
  email :: string
  credits :: int
  total_credits_used :: int

text \<open>
  Modelled from the spec: the configured allow-list of administrator identities and the
  fixed price of a page (4.6).
\<close>

record ledger_config =
  admin_emails :: "string list"
  price_per_page :: int

text \<open>Modelled from the spec: the answer of \<open>checkCredits\<close> (4.6).\<close>

record check_result =
  authorized :: bool
  costEstimate :: int

text \<open>
  Modelled from the spec: an administrator is an account whose stored email is on the
  allow-list (6).
\<close>

definition is_admin :: "ledger_config \<Rightarrow> credit_account \<Rightarrow> bool" where
  "is_admin cfg a = (email a \<in> set (admin_emails cfg))"

text \<open>
  Modelled from the spec: \<open>checkCredits(estimatedPages)\<close> (4.6): the cost is the page count
  times the unit price; administrators always authorize, others when the balance covers
  the cost.
\<close>

definition checkCredits :: "ledger_config \<Rightarrow> credit_account \<Rightarrow> int \<Rightarrow> check_result" where
  "checkCredits cfg a estimatedPages =
     (let cost = estimatedPages * price_per_page cfg
      in \<lparr>authorized = (is_admin cfg a \<or> cost \<le> credits a), costEstimate = cost\<rparr>)"

text \<open>
  Modelled from the spec: \<open>debit(actualPages)\<close> (4.6): administrators are never debited;
  for others the cost leaves the balance and is added to the cumulative use.
\<close>

definition debit :: "ledger_config \<Rightarrow> credit_account \<Rightarrow> int \<Rightarrow> credit_account" where
  "debit cfg a actualPages =
     (if is_admin cfg a then a
      else a\<lparr>credits := credits a - actualPages * price_per_page cfg,
             total_credits_used := total_credits_used a + actualPages * price_per_page cfg\<rparr>)"

text \<open>
  A ledger whose allow-list holds the administrator address of the build guide, at 55
  per page, and two accounts without balance.
\<close>

definition sample_ledger :: ledger_config where
  "sample_ledger = \<lparr>admin_emails = [''kjccjk@hanmail.net''], price_per_page = 55\<rparr>"

definition admin_account :: credit_account where
  "admin_account = \<lparr>email = ''kjccjk@hanmail.net'', credits = 0, total_credits_used = 0\<rparr>"

definition user_account :: credit_account where
  "user_account = \<lparr>email = ''test@example.com'', credits = 0, total_credits_used = 0\<rparr>"

section \<open>Properties of the review session\<close>

subsection \<open>The two loops, in closed form\<close>

lemma confirmAll_forEach_lookup:
  "confirmAll_forEach cs k ds i =
     (if k \<le> i \<and> i < k + length cs \<and> js_not (ds i) then Some ''confirmed'' else ds i)"
proof (induction cs arbitrary: k ds)
  case Nil
  show ?case by auto
next
  case (Cons c cs)
  show ?case by (simp add: Cons.IH)
qed

lemma save_forEach_eq:
  "save_forEach f ds cs k (es, ls) =
     (es @ map (\<lambda>(i, c).
          \<lparr>candidate = c,
           decision = (if startsWith (js_or (ds i) ''pending'') ''edited:'' then ''edited''
                       else js_or (ds i) ''pending''),
           edited_value = (if startsWith (js_or (ds i) ''pending'') ''edited:''
                           then Some (slice (js_or (ds i) ''pending'') 7) else None)\<rparr>)
        (enumerate k cs),
      ls @ map (\<lambda>(i, c).
          \<lparr>l_original = original c,
           l_corrected = (if startsWith (js_or (ds i) ''pending'') ''edited:''
                          then Some (slice (js_or (ds i) ''pending'') 7) else corrected c),
           l_file_path = f,
           l_context = js_or (location c) '''',
           l_category = js_or (category c) ''unknown'',
           l_reason = js_or (reason c) '''',
           l_decision = (if startsWith (js_or (ds i) ''pending'') ''edited:''
                         then ''edited'' else ''confirmed'')\<rparr>)
        (filter (\<lambda>(i, c). js_or (ds i) ''pending'' = ''confirmed''
                          \<or> startsWith (js_or (ds i) ''pending'') ''edited:'')
           (enumerate k cs)))"
proof (induction cs arbitrary: k es ls)
  case Nil
  show ?case by simp
next
  case (Cons c cs)
  show ?case by (simp add: Cons.IH Let_def)
qed

lemma decided_not_empty: "decided d \<Longrightarrow> d \<noteq> []"
  by (auto simp: decided_def startsWith_def)

text \<open>The save reports success exactly when a file is selected and the write resolves.\<close>

lemma saved_iff:
  "alerts (saveCorrectionReview env w) = alerts w @ [ReviewSaved] \<longleftrightarrow>
     \<not> js_not (currentFile w) \<and>
     writeJsonFile env (reviewPath env (the (currentFile w)))
       \<lparr>r_file = the (currentFile w), reviewed_at = now_iso env,
        decisions_of = fst (save_forEach (the (currentFile w)) (decisions w) (corrections w) 0 ([], []))\<rparr> = None"
  by (auto simp: saveCorrectionReview_def Let_def split: prod.splits option.splits)

text \<open>The prefix test on \<open>edited:\<close>, the decisions that are learned and their place in the list.\<close>

lemma startsWith_edited: "startsWith d ''edited:'' \<longleftrightarrow> take 7 d = ''edited:''"
proof -
  have len: "length ''edited:'' = 7" by simp
  show ?thesis unfolding startsWith_def len by (rule refl)
qed

lemma learnable_iff:
  "learnable ds i \<longleftrightarrow>
     js_or (ds i) ''pending'' = ''confirmed'' \<or> startsWith (js_or (ds i) ''pending'') ''edited:''"
proof (cases "ds i")
  case None
  then show ?thesis by (simp add: learnable_def js_or_def startsWith_edited)
next
  case (Some d)
  then show ?thesis
    by (cases "d = []") (simp_all add: learnable_def js_or_def startsWith_edited)
qed

lemma enumerate_as_map: "enumerate 0 cs = map (\<lambda>i. (i, cs ! i)) [0..<length cs]"
  by (rule nth_equalityI) (simp_all add: nth_enumerate_eq)

lemma upt_split: "i < n \<Longrightarrow> [0..<n] = [0..<i] @ i # [Suc i..<n]"
proof -
  assume a: "i < n"
  then have "[0..<n] = [0..<i] @ [i..<n]"
    using upt_add_eq_append [of 0 i "n - i"] by simp
  also have "[i..<n] = i # [Suc i..<n]"
    using a by (simp add: upt_conv_Cons)
  finally show ?thesis .
qed

lemma nth_map_filter_upt:
  assumes "i < n" and "P i"
  shows "map f (filter P [0..<n]) ! length (filter P [0..<i]) = f i"
proof -
  have "map f (filter P [0..<n])
      = map f (filter P [0..<i]) @ f i # map f (filter P [Suc i..<n])"
    unfolding upt_split [OF assms(1)] using assms(2) by simp
  then show ?thesis
    by (simp add: nth_append)
qed

lemma forwarded_index_form:
  "snd (save_forEach f ds cs 0 ([], [])) =
     map (\<lambda>i.
          \<lparr>l_original = original (cs ! i),
           l_corrected = (if startsWith (js_or (ds i) ''pending'') ''edited:''
                          then Some (slice (js_or (ds i) ''pending'') 7) else corrected (cs ! i)),
           l_file_path = f,
           l_context = js_or (location (cs ! i)) '''',
           l_category = js_or (category (cs ! i)) ''unknown'',
           l_reason = js_or (reason (cs ! i)) '''',
           l_decision = (if startsWith (js_or (ds i) ''pending'') ''edited:''
                         then ''edited'' else ''confirmed'')\<rparr>)
       (filter (learnable ds) [0..<length cs])"
proof -
  let ?Q = "\<lambda>(i, c :: correction). js_or (ds i) ''pending'' = ''confirmed''
                          \<or> startsWith (js_or (ds i) ''pending'') ''edited:''"
  have q: "filter ?Q (enumerate 0 cs)
      = map (\<lambda>i. (i, cs ! i)) (filter (learnable ds) [0..<length cs])"
    unfolding enumerate_as_map filter_map
    by (rule arg_cong [where f = "map (\<lambda>i. (i, cs ! i))"], rule filter_cong)
       (simp_all add: learnable_iff)
  show ?thesis
    unfolding save_forEach_eq snd_conv append_Nil q map_map
    by (rule map_cong) simp_all
qed

lemma edited_decision:
  "ds i = Some (''edited:'' @ v) \<Longrightarrow>
     startsWith (js_or (ds i) ''pending'') ''edited:'' \<and> slice (js_or (ds i) ''pending'') 7 = v
     \<and> learnable ds i"
  by (simp add: js_or_def startsWith_edited slice_def learnable_def)

lemma confirmed_decision:
  "ds i = Some ''confirmed'' \<Longrightarrow>
     \<not> startsWith (js_or (ds i) ''pending'') ''edited:'' \<and> learnable ds i"
  by (simp add: js_or_def startsWith_edited learnable_def)

lemma js_or_cases:
  "js_or v d = (case v of None \<Rightarrow> d | Some s \<Rightarrow> if s = [] then d else s)"
  by (cases v) (simp_all add: js_or_def)

subsection \<open>Saving\<close>

text \<open>
  C1. When a review session is saved (the save reports success), the review record
  written for the document holds one decision entry per candidate, in order; a candidate
  with no recorded decision is written with disposition \<open>pending\<close>, and one edited to
  \<open>v\<close> with disposition \<open>edited\<close> and \<open>v\<close> as its edited value. The list handed to
  \<open>collectCorrections\<close> has one record for each candidate whose decision is
  \<open>confirmed\<close> or \<open>edited:v\<close>, in the order of the candidates, and no other: the
  record of a confirmed candidate carries the proposed correction, the record of a
  candidate edited to \<open>v\<close> carries \<open>v\<close> as the corrected text. A rejected or pending
  candidate has no record in it.
\<close>

theorem save_review_record_and_forwarding:
  assumes "alerts (saveCorrectionReview env w) = alerts w @ [ReviewSaved]"
  shows "(\<exists>rr. disk (saveCorrectionReview env w) (reviewPath env (the (currentFile w))) = Some rr
            \<and> map candidate (decisions_of rr) = corrections w
            \<and> (\<forall>i < length (corrections w). decisions w i = None \<longrightarrow>
                  decision (decisions_of rr ! i) = ''pending''
                  \<and> edited_value (decisions_of rr ! i) = None)
            \<and> (\<forall>i < length (corrections w). \<forall>v. decisions w i = Some (''edited:'' @ v) \<longrightarrow>
                  decision (decisions_of rr ! i) = ''edited''
                  \<and> edited_value (decisions_of rr ! i) = Some v))
       \<and> length (forwarded_by env w)
           = length (filter (learnable (decisions w)) [0..<length (corrections w)])
       \<and> (\<forall>i. decisions w i = None \<or> decisions w i = Some ''rejected''
               \<or> decisions w i = Some ''pending'' \<longrightarrow> \<not> learnable (decisions w) i)
       \<and> (\<forall>i < length (corrections w). decisions w i = Some ''confirmed'' \<longrightarrow>
             forwarded_by env w ! length (filter (learnable (decisions w)) [0..<i]) =
               \<lparr>l_original = original (corrections w ! i),
                l_corrected = corrected (corrections w ! i),
                l_file_path = the (currentFile w),
                l_context = (case location (corrections w ! i) of None \<Rightarrow> '''' | Some s \<Rightarrow> s),
                l_category = (case category (corrections w ! i) of None \<Rightarrow> ''unknown''
                              | Some s \<Rightarrow> if s = [] then ''unknown'' else s),
                l_reason = (case reason (corrections w ! i) of None \<Rightarrow> '''' | Some s \<Rightarrow> s),
                l_decision = ''confirmed''\<rparr>)
       \<and> (\<forall>i < length (corrections w). \<forall>v. decisions w i = Some (''edited:'' @ v) \<longrightarrow>
             forwarded_by env w ! length (filter (learnable (decisions w)) [0..<i]) =
               \<lparr>l_original = original (corrections w ! i),
                l_corrected = Some v,
                l_file_path = the (currentFile w),
                l_context = (case location (corrections w ! i) of None \<Rightarrow> '''' | Some s \<Rightarrow> s),
                l_category = (case category (corrections w ! i) of None \<Rightarrow> ''unknown''
                              | Some s \<Rightarrow> if s = [] then ''unknown'' else s),
                l_reason = (case reason (corrections w ! i) of None \<Rightarrow> '''' | Some s \<Rightarrow> s),
                l_decision = ''edited''\<rparr>)
       \<and> (\<forall>l \<in> set (forwarded_by env w). l_decision l = ''confirmed'' \<or> l_decision l = ''edited'')"
proof -
  let ?f = "the (currentFile w)"
  let ?cs = "corrections w"
  let ?ds = "decisions w"
  let ?r = "save_forEach ?f ?ds ?cs 0 ([], [])"
  let ?pos = "\<lambda>i. length (filter (learnable ?ds) [0..<i])"
  from assms have sel: "\<not> js_not (currentFile w)"
    and wr: "writeJsonFile env (reviewPath env ?f)
       \<lparr>r_file = ?f, reviewed_at = now_iso env, decisions_of = fst ?r\<rparr> = None"
    by (simp_all add: saved_iff)
  have dk: "disk (saveCorrectionReview env w) (reviewPath env ?f) =
      Some \<lparr>r_file = ?f, reviewed_at = now_iso env, decisions_of = fst ?r\<rparr>"
    using sel wr by (simp add: saveCorrectionReview_def Let_def case_prod_unfold)
  have fw: "forwarded_by env w = snd ?r"
    using sel wr by (simp add: forwarded_by_def saveCorrectionReview_def Let_def case_prod_unfold)
  have cand: "map candidate (fst ?r) = ?cs"
    by (simp add: save_forEach_eq comp_def case_prod_unfold)
  have pend: "\<forall>i < length ?cs. ?ds i = None \<longrightarrow>
      decision (fst ?r ! i) = ''pending'' \<and> edited_value (fst ?r ! i) = None"
    by (simp add: save_forEach_eq nth_enumerate_eq js_or_def startsWith_edited)
  have edt: "\<forall>i < length ?cs. \<forall>v. ?ds i = Some (''edited:'' @ v) \<longrightarrow>
      decision (fst ?r ! i) = ''edited'' \<and> edited_value (fst ?r ! i) = Some v"
  proof (intro allI impI)
    fix i v assume i: "i < length ?cs" and c: "?ds i = Some (''edited:'' @ v)"
    note k = edited_decision [of "decisions w" i v, OF c]
    show "decision (fst ?r ! i) = ''edited'' \<and> edited_value (fst ?r ! i) = Some v"
      using i k by (simp add: save_forEach_eq nth_enumerate_eq)
  qed
  have len: "length (snd ?r) = length (filter (learnable ?ds) [0..<length ?cs])"
    by (simp add: forwarded_index_form)
  have nl: "\<forall>i. ?ds i = None \<or> ?ds i = Some ''rejected'' \<or> ?ds i = Some ''pending''
      \<longrightarrow> \<not> learnable ?ds i"
    by (auto simp: learnable_def)
  have conf: "\<forall>i < length ?cs. ?ds i = Some ''confirmed'' \<longrightarrow>
      snd ?r ! ?pos i =
               \<lparr>l_original = original (?cs ! i),
                l_corrected = corrected (?cs ! i),
                l_file_path = ?f,
                l_context = (case location (?cs ! i) of None \<Rightarrow> '''' | Some s \<Rightarrow> s),
                l_category = (case category (?cs ! i) of None \<Rightarrow> ''unknown''
                              | Some s \<Rightarrow> if s = [] then ''unknown'' else s),
                l_reason = (case reason (?cs ! i) of None \<Rightarrow> '''' | Some s \<Rightarrow> s),
                l_decision = ''confirmed''\<rparr>"
  proof (intro allI impI)
    fix i assume i: "i < length ?cs" and c: "?ds i = Some ''confirmed''"
    note k = confirmed_decision [of "decisions w" i, OF c]
    show "snd ?r ! ?pos i =
               \<lparr>l_original = original (?cs ! i),
                l_corrected = corrected (?cs ! i),
                l_file_path = ?f,
                l_context = (case location (?cs ! i) of None \<Rightarrow> '''' | Some s \<Rightarrow> s),
                l_category = (case category (?cs ! i) of None \<Rightarrow> ''unknown''
                              | Some s \<Rightarrow> if s = [] then ''unknown'' else s),
                l_reason = (case reason (?cs ! i) of None \<Rightarrow> '''' | Some s \<Rightarrow> s),
                l_decision = ''confirmed''\<rparr>"
      unfolding forwarded_index_form
      by (subst nth_map_filter_upt [OF i]) (use k in \<open>auto simp: js_or_cases split: option.splits\<close>)
  qed
  have edit: "\<forall>i < length ?cs. \<forall>v. ?ds i = Some (''edited:'' @ v) \<longrightarrow>
      snd ?r ! ?pos i =
               \<lparr>l_original = original (?cs ! i),
                l_corrected = Some v,
                l_file_path = ?f,
                l_context = (case location (?cs ! i) of None \<Rightarrow> '''' | Some s \<Rightarrow> s),
                l_category = (case category (?cs ! i) of None \<Rightarrow> ''unknown''
                              | Some s \<Rightarrow> if s = [] then ''unknown'' else s),
                l_reason = (case reason (?cs ! i) of None \<Rightarrow> '''' | Some s \<Rightarrow> s),
                l_decision = ''edited''\<rparr>"
  proof (intro allI impI)
    fix i v assume i: "i < length ?cs" and c: "?ds i = Some (''edited:'' @ v)"
    note k = edited_decision [of "decisions w" i v, OF c]
    show "snd ?r ! ?pos i =
               \<lparr>l_original = original (?cs ! i),
                l_corrected = Some v,
                l_file_path = ?f,
                l_context = (case location (?cs ! i) of None \<Rightarrow> '''' | Some s \<Rightarrow> s),
                l_category = (case category (?cs ! i) of None \<Rightarrow> ''unknown''
                              | Some s \<Rightarrow> if s = [] then ''unknown'' else s),
                l_reason = (case reason (?cs ! i) of None \<Rightarrow> '''' | Some s \<Rightarrow> s),
                l_decision = ''edited''\<rparr>"
      unfolding forwarded_index_form
      by (subst nth_map_filter_upt [OF i]) (use k in \<open>auto simp: js_or_cases split: option.splits\<close>)
  qed
  have dec: "\<forall>l \<in> set (snd ?r). l_decision l = ''confirmed'' \<or> l_decision l = ''edited''"
    by (auto simp: save_forEach_eq)
  have ex: "\<exists>rr. disk (saveCorrectionReview env w) (reviewPath env ?f) = Some rr
            \<and> map candidate (decisions_of rr) = ?cs
            \<and> (\<forall>i < length ?cs. ?ds i = None \<longrightarrow>
                  decision (decisions_of rr ! i) = ''pending''
                  \<and> edited_value (decisions_of rr ! i) = None)
            \<and> (\<forall>i < length ?cs. \<forall>v. ?ds i = Some (''edited:'' @ v) \<longrightarrow>
                  decision (decisions_of rr ! i) = ''edited''
                  \<and> edited_value (decisions_of rr ! i) = Some v)"
    unfolding dk using cand pend edt by simp
  show ?thesis
    unfolding fw by (intro conjI ex len nl conf edit dec)
qed

text \<open>
  Two sessions. Three candidates with two confirmed and one rejected: two records are
  forwarded (the first and the third candidate) and none for the rejected one. Four
  candidates, the first edited to \<open>new\<close>, the third undecided: the edited value is the
  corrected text forwarded, and the undecided candidate is written as \<open>pending\<close>.
\<close>

theorem save_review_record_and_forwarding_witness:
  "alerts (saveCorrectionReview example_env example_session) = alerts example_session @ [ReviewSaved]
   \<and> length (forwarded_by example_env example_session) = 2
   \<and> map l_original (forwarded_by example_env example_session) = [Some ''x1'', Some ''x3'']
   \<and> map l_corrected (forwarded_by example_env example_session) = [Some ''y1'', Some ''y3'']
   \<and> map decision (decisions_of (the (disk (saveCorrectionReview example_env example_session)
          (reviewPath example_env ''a.html'')))) = [''confirmed'', ''rejected'', ''confirmed'']
   \<and> alerts (saveCorrectionReview example_env example_session_edit)
       = alerts example_session_edit @ [ReviewSaved]
   \<and> forwarded_by example_env example_session_edit ! 0 =
         \<lparr>l_original = Some ''x1'', l_corrected = Some ''new'', l_file_path = ''b.html'',
          l_context = '''', l_category = ''unknown'', l_reason = '''', l_decision = ''edited''\<rparr>
   \<and> map l_corrected (forwarded_by example_env example_session_edit) = [Some ''new'', Some ''y4'']
   \<and> map l_decision (forwarded_by example_env example_session_edit) = [''edited'', ''confirmed'']
   \<and> map decision (decisions_of (the (disk (saveCorrectionReview example_env example_session_edit)
          (reviewPath example_env ''b.html''))))
       = [''edited'', ''rejected'', ''pending'', ''confirmed'']
   \<and> map edited_value (decisions_of (the (disk (saveCorrectionReview example_env example_session_edit)
          (reviewPath example_env ''b.html''))))
       = [Some ''new'', None, None, None]"
proof -
  note defs = saveCorrectionReview_def example_env_def example_session_def example_session_edit_def
    Let_def js_or_def startsWith_def slice_def reviewPath_def forwarded_by_def example_correction_def
  have h1: "alerts (saveCorrectionReview example_env example_session) = alerts example_session @ [ReviewSaved]"
    by (simp add: defs)
  have h2: "alerts (saveCorrectionReview example_env example_session_edit)
       = alerts example_session_edit @ [ReviewSaved]"
    by (simp add: defs)
  have l1: "length (forwarded_by example_env example_session)
      = length (filter (learnable (decisions example_session))
                  [0..<length (corrections example_session)])"
    using save_review_record_and_forwarding [OF h1] by blast
  have c1: "length (filter (learnable (decisions example_session))
                  [0..<length (corrections example_session)]) = 2"
    by (simp add: example_session_def learnable_def upt_rec)
  note e = save_review_record_and_forwarding [OF h2, THEN conjunct2, THEN conjunct2,
      THEN conjunct2, THEN conjunct2, THEN conjunct1, rule_format, of 0 "''new''"]
  have e0: "forwarded_by example_env example_session_edit ! 0 =
         \<lparr>l_original = Some ''x1'', l_corrected = Some ''new'', l_file_path = ''b.html'',
          l_context = '''', l_category = ''unknown'', l_reason = '''', l_decision = ''edited''\<rparr>"
    using e by (simp add: example_session_edit_def example_correction_def)
  have rest: "map l_original (forwarded_by example_env example_session) = [Some ''x1'', Some ''x3'']
   \<and> map l_corrected (forwarded_by example_env example_session) = [Some ''y1'', Some ''y3'']
   \<and> map decision (decisions_of (the (disk (saveCorrectionReview example_env example_session)
          (reviewPath example_env ''a.html'')))) = [''confirmed'', ''rejected'', ''confirmed'']
   \<and> map l_corrected (forwarded_by example_env example_session_edit) = [Some ''new'', Some ''y4'']
   \<and> map l_decision (forwarded_by example_env example_session_edit) = [''edited'', ''confirmed'']
   \<and> map decision (decisions_of (the (disk (saveCorrectionReview example_env example_session_edit)
          (reviewPath example_env ''b.html''))))
       = [''edited'', ''rejected'', ''pending'', ''confirmed'']
   \<and> map edited_value (decisions_of (the (disk (saveCorrectionReview example_env example_session_edit)
          (reviewPath example_env ''b.html''))))
       = [Some ''new'', None, None, None]"
    by (simp add: defs)
  show ?thesis
    using h1 h2 l1 c1 e0 rest by simp
qed


text \<open>
  C9. If the review record is written and the call of the learning collector rejects,
  the save still completes as a success: the record stays written, the success alert is
  shown and the modal is closed; the failure only leaves a warning on the console.
\<close>

theorem learning_failure_keeps_save:
  assumes "\<not> js_not (currentFile w)"
    and "\<forall>r. writeJsonFile env (reviewPath env (the (currentFile w))) r = None"
    and "\<forall>ls. \<not> collectCorrections env ls"
  shows "alerts (saveCorrectionReview env w) = alerts w @ [ReviewSaved]
       \<and> disk (saveCorrectionReview env w) (reviewPath env (the (currentFile w))) =
           Some \<lparr>r_file = the (currentFile w), reviewed_at = now_iso env,
                 decisions_of = fst (save_forEach (the (currentFile w)) (decisions w)
                                       (corrections w) 0 ([], []))\<rparr>
       \<and> modal_hidden (saveCorrectionReview env w)
       \<and> (forwarded_by env w \<noteq> [] \<longrightarrow>
            console (saveCorrectionReview env w) = console w @ [WarnCollectFailed])"
  using assms
  by (simp add: forwarded_by_def saveCorrectionReview_def Let_def case_prod_unfold)

theorem learning_failure_keeps_save_witness:
  "\<not> js_not (currentFile example_session)
   \<and> (\<forall>r. writeJsonFile example_env (reviewPath example_env (the (currentFile example_session))) r = None)
   \<and> (\<forall>ls. \<not> collectCorrections example_env ls)
   \<and> alerts (saveCorrectionReview example_env example_session) = [ReviewSaved]
   \<and> modal_hidden (saveCorrectionReview example_env example_session)
   \<and> console (saveCorrectionReview example_env example_session) = [WarnCollectFailed]"
proof -
  have h1: "\<not> js_not (currentFile example_session)"
    by (simp add: example_session_def)
  have h2: "\<forall>r. writeJsonFile example_env
      (reviewPath example_env (the (currentFile example_session))) r = None"
    by (simp add: example_env_def)
  have h3: "\<forall>ls. \<not> collectCorrections example_env ls"
    by (simp add: example_env_def)
  have ne: "forwarded_by example_env example_session \<noteq> []"
    by (simp add: saveCorrectionReview_def example_env_def example_session_def Let_def
        js_or_def startsWith_def slice_def reviewPath_def forwarded_by_def)
  show ?thesis
    using learning_failure_keeps_save [OF h1 h2 h3] h1 h2 h3 ne
    by (simp add: example_session_def)
qed

subsection \<open>Recording decisions\<close>

text \<open>
  C4. \<open>confirmAllCorrections\<close> gives the decision \<open>confirmed\<close> to every candidate that
  has no recorded decision, and leaves the decision of every candidate already decided
  (confirmed, rejected or edited) as it is.
\<close>

theorem confirmAll_assigns_undecided_only:
  "(\<forall>i < length (corrections w). decisions w i = None \<longrightarrow>
       decisions (confirmAllCorrections w) i = Some ''confirmed'')
   \<and> (\<forall>i d. decisions w i = Some d \<and> decided d \<longrightarrow>
       decisions (confirmAllCorrections w) i = Some d)"
  by (auto simp: confirmAllCorrections_def confirmAll_forEach_lookup dest: decided_not_empty)

theorem confirmAll_assigns_undecided_only_witness:
  "decisions (handleCorrectionDecision 1 ''rejected'' (example_session\<lparr>decisions := Map.empty\<rparr>)) 0 = None
   \<and> decisions (handleCorrectionDecision 1 ''rejected'' (example_session\<lparr>decisions := Map.empty\<rparr>)) 1
       = Some ''rejected''
   \<and> decided ''rejected''
   \<and> decisions (confirmAllCorrections
        (handleCorrectionDecision 1 ''rejected'' (example_session\<lparr>decisions := Map.empty\<rparr>))) 0
       = Some ''confirmed''
   \<and> decisions (confirmAllCorrections
        (handleCorrectionDecision 1 ''rejected'' (example_session\<lparr>decisions := Map.empty\<rparr>))) 1
       = Some ''rejected''"
proof -
  let ?w = "handleCorrectionDecision 1 ''rejected'' (example_session\<lparr>decisions := Map.empty\<rparr>)"
  have len: "0 < length (corrections ?w)"
    by (simp add: handleCorrectionDecision_def example_session_def)
  have d0: "decisions ?w 0 = None"
    by (simp add: handleCorrectionDecision_def)
  have d1: "decisions ?w 1 = Some ''rejected''"
    by (simp add: handleCorrectionDecision_def)
  have dd: "decided ''rejected''"
    by (simp add: decided_def)
  from confirmAll_assigns_undecided_only [of ?w] len d0 d1 dd
  have "decisions (confirmAllCorrections ?w) 0 = Some ''confirmed''"
    and "decisions (confirmAllCorrections ?w) 1 = Some ''rejected''"
    by blast+
  with d0 d1 dd show ?thesis by simp
qed

text \<open>
  C5. Recording a decision overwrites whatever was recorded for that candidate, so
  recording the same decision twice leaves the same state as recording it once; and it
  touches nothing but the decision map: no review record is written, nothing is
  forwarded, no alert is shown and the modal stays as it is, so the session is not saved
  by it.
\<close>

theorem handleCorrectionDecision_idempotent:
  "decisions (handleCorrectionDecision i d w) = (decisions w)(i \<mapsto> d)
   \<and> decisions (handleCorrectionDecision i d (handleCorrectionDecision i d' w))
       = decisions (handleCorrectionDecision i d w)
   \<and> handleCorrectionDecision i d (handleCorrectionDecision i d w) = handleCorrectionDecision i d w
   \<and> disk (handleCorrectionDecision i d w) = disk w
   \<and> collect_calls (handleCorrectionDecision i d w) = collect_calls w
   \<and> alerts (handleCorrectionDecision i d w) = alerts w
   \<and> modal_hidden (handleCorrectionDecision i d w) = modal_hidden w"
  by (simp add: handleCorrectionDecision_def)

section \<open>Properties of the PDF classifier\<close>

lemma analyze_pdf_iff: "analyze_pdf pages \<longleftrightarrow> length (sampled_text pages) > 100"
proof -
  have "(\<lambda>page. length (case page of None \<Rightarrow> [] | Some t \<Rightarrow> if t = [] then [] else t))
      = (\<lambda>page :: 'a list option. length (case page of None \<Rightarrow> [] | Some t \<Rightarrow> t))"
    by (auto split: option.splits)
  then show ?thesis
    by (simp add: analyze_pdf_def sampled_text_def length_concat comp_def)
qed

text \<open>
  C8. The classifier looks at the first three pages only. If their extracted text, taken
  together, is longer than 100 characters the file is a digital PDF on the local route;
  at 100 characters or fewer (100 included) it is an image PDF on the remote (API) route.
\<close>

theorem classify_pdf_threshold:
  "(length (sampled_text pages) > 100 \<longrightarrow> classify_pdf pages = (PDF_digital, Local))
   \<and> (length (sampled_text pages) \<le> 100 \<longrightarrow> classify_pdf pages = (PDF_image, API))
   \<and> classify_pdf pages = classify_pdf (take 3 pages)"
  by (simp add: classify_pdf_def analyze_pdf_iff sampled_text_def)

theorem classify_pdf_threshold_witness:
  "length (sampled_text [Some (replicate 60 CHR ''a''), None, Some (replicate 40 CHR ''b''),
                         Some (replicate 500 CHR ''c'')]) \<le> 100
   \<and> classify_pdf [Some (replicate 60 CHR ''a''), None, Some (replicate 40 CHR ''b''),
                    Some (replicate 500 CHR ''c'')] = (PDF_image, API)
   \<and> length (sampled_text [Some (replicate 60 CHR ''a''), Some (replicate 41 CHR ''b'')]) > 100
   \<and> classify_pdf [Some (replicate 60 CHR ''a''), Some (replicate 41 CHR ''b'')]
       = (PDF_digital, Local)"
proof -
  have a: "length (sampled_text [Some (replicate 60 CHR ''a''), None, Some (replicate 40 CHR ''b''),
                         Some (replicate 500 CHR ''c'')]) \<le> 100"
    by (simp add: sampled_text_def)
  have b: "length (sampled_text [Some (replicate 60 CHR ''a''), Some (replicate 41 CHR ''b'')]) > 100"
    by (simp add: sampled_text_def)
  show ?thesis
    using a b
      classify_pdf_threshold [of "[Some (replicate 60 CHR ''a''), None, Some (replicate 40 CHR ''b''),
                         Some (replicate 500 CHR ''c'')]"]
      classify_pdf_threshold [of "[Some (replicate 60 CHR ''a''), Some (replicate 41 CHR ''b'')]"]
    by blast
qed

section \<open>Properties of the credit check\<close>

lemma getPythonCommand_for_None:
  "getPythonCommand_for ex cmds = None \<longleftrightarrow>
     (\<forall>cmd \<in> set cmds. case ex (cmd @ '' --version'') of
                          None \<Rightarrow> True | Some result \<Rightarrow> \<not> js_includes result ''Python 3'')"
  by (induction cmds) (auto split: option.splits)

text \<open>
  C10. Whatever the page count: if none of the candidate commands answers with a
  Python 3 version, or if the output collected from the credit manager does not parse as
  JSON, the handler resolves with \<open>has_credits: false\<close>.
\<close>

theorem check_credits_denies_on_failure:
  "((\<forall>cmd \<in> set [''python3'', ''python'', ''py''].
        case execSync env (cmd @ '' --version'') of
          None \<Rightarrow> True | Some result \<Rightarrow> \<not> js_includes result ''Python 3'')
      \<longrightarrow> js_get (check_credits env pageCount) ''has_credits'' = Some (JBool False))
   \<and> (\<forall>pythonCmd. getPythonCommand env = Some pythonCmd
          \<and> JSON_parse env (check_output env pythonCmd pageCount) = None
      \<longrightarrow> js_get (check_credits env pageCount) ''has_credits'' = Some (JBool False))"
proof (intro conjI impI allI)
  assume "\<forall>cmd \<in> set [''python3'', ''python'', ''py''].
        case execSync env (cmd @ '' --version'') of
          None \<Rightarrow> True | Some result \<Rightarrow> \<not> js_includes result ''Python 3''"
  then have "getPythonCommand env = None"
    unfolding getPythonCommand_def getPythonCommand_for_None .
  then show "js_get (check_credits env pageCount) ''has_credits'' = Some (JBool False)"
    by (simp add: check_credits_def)
next
  fix pythonCmd
  assume "getPythonCommand env = Some pythonCmd
          \<and> JSON_parse env (check_output env pythonCmd pageCount) = None"
  then show "js_get (check_credits env pageCount) ''has_credits'' = Some (JBool False)"
    by (simp add: check_credits_def)
qed

theorem check_credits_denies_on_failure_witness:
  "getPythonCommand env_no_python = None
   \<and> js_get (check_credits env_no_python 7) ''has_credits'' = Some (JBool False)
   \<and> check_credits env_no_python 7
       = JObj [(''has_credits'', JBool False), (''message'', JStr ''Python not found'')]
   \<and> getPythonCommand env_bad_output = Some ''python3''
   \<and> JSON_parse env_bad_output (check_output env_bad_output ''python3'' 7) = None
   \<and> js_get (check_credits env_bad_output 7) ''has_credits'' = Some (JBool False)"
proof -
  have a: "\<forall>cmd \<in> set [''python3'', ''python'', ''py''].
        case execSync env_no_python (cmd @ '' --version'') of
          None \<Rightarrow> True | Some result \<Rightarrow> \<not> js_includes result ''Python 3''"
    by (simp add: env_no_python_def startsWith_def)
  have b: "getPythonCommand env_bad_output = Some ''python3''"
    by (simp add: getPythonCommand_def env_bad_output_def startsWith_def)
  have c: "JSON_parse env_bad_output (check_output env_bad_output ''python3'' 7) = None"
    by (simp add: env_bad_output_def)
  have d: "check_credits env_no_python 7
       = JObj [(''has_credits'', JBool False), (''message'', JStr ''Python not found'')]"
    by (simp add: check_credits_def getPythonCommand_def env_no_python_def startsWith_def)
  have n: "getPythonCommand env_no_python = None"
    by (simp add: getPythonCommand_def env_no_python_def startsWith_def)
  have e: "js_get (check_credits env_no_python 7) ''has_credits'' = Some (JBool False)"
    using a check_credits_denies_on_failure [of env_no_python 7] by blast
  have f: "js_get (check_credits env_bad_output 7) ''has_credits'' = Some (JBool False)"
    using b c check_credits_denies_on_failure [of env_bad_output 7] by blast
  show ?thesis
    using n e d b c f by blast
qed

section \<open>Properties of the pattern store\<close>

subsection \<open>The ranking view\<close>

lemma ranking_select_Inr:
  "ranking_select p = Inr r \<Longrightarrow>
     v_id r = p_id p \<and> v_is_active r = is_active p
     \<and> v_usage_count r = usage_count p \<and> v_frequency r = frequency p
     \<and> effectiveness_score r =
         (case usage_count p of None \<Rightarrow> None
          | Some u \<Rightarrow> (case frequency p of None \<Rightarrow> None | Some f \<Rightarrow> Some (u * 2 + f)))"
  by (auto simp: ranking_select_def pg_bind_def int4mul_def int4pl_def
      split: option.splits if_splits sum.splits)


lemma ranking_rows_Inr:
  "ranking_rows tbl = Inr rows \<Longrightarrow>
     list_all2 (\<lambda>p r. ranking_select p = Inr r) (filter (\<lambda>p. is_active p = Some True) tbl) rows"
proof (induction tbl arbitrary: rows)
  case Nil
  then show ?case by simp
next
  case (Cons p ps)
  show ?case
  proof (cases "is_active p = Some True")
    case True
    with Cons.prems obtain r rs where r: "ranking_select p = Inr r"
      and rs: "ranking_rows ps = Inr rs" and rows: "rows = r # rs"
      by (auto simp: pg_bind_def split: sum.splits)
    from Cons.IH [OF rs] r rows True show ?thesis by simp
  next
    case False
    with Cons.prems have "ranking_rows ps = Inr rows" by simp
    from Cons.IH [OF this] False show ?thesis by simp
  qed
qed




lemma view_result:
  "pattern_effectiveness_ranking tbl (Inr out) \<Longrightarrow>
     \<exists>rows. ranking_rows tbl = Inr rows \<and> mset out = mset rows \<and> sorted_wrt score_desc out"
  by (auto simp: pattern_effectiveness_ranking_def split: sum.splits)


lemma list_all2_left: "list_all2 P xs ys \<Longrightarrow> x \<in> set xs \<Longrightarrow> \<exists>y \<in> set ys. P x y"
  by (induction xs ys rule: list_all2_induct) auto


lemma view_pattern_row:
  assumes "pattern_effectiveness_ranking tbl (Inr out)" and "p \<in> set tbl"
    and "is_active p = Some True"
  shows "\<exists>r \<in> set out. ranking_select p = Inr r"
proof -
  from view_result [OF assms(1)] obtain rows where rows: "ranking_rows tbl = Inr rows"
    and m: "mset out = mset rows" by blast
  from assms(2,3) have "p \<in> set (filter (\<lambda>p. is_active p = Some True) tbl)" by simp
  with list_all2_left [OF ranking_rows_Inr [OF rows]]
  obtain r where "r \<in> set rows" "ranking_select p = Inr r" by blast
  moreover have "set rows = set out" using m by (metis mset_eq_setD)
  ultimately show ?thesis by auto
qed






subsection \<open>Uniqueness of the triple and the upsert\<close>

lemma varchar_fits: "length s \<le> n \<Longrightarrow> varchar n s = Inr s"
  by (simp add: varchar_def)

lemma store_row_new_pattern:
  "length orig \<le> 500 \<Longrightarrow> length corr \<le> 500 \<Longrightarrow> length src \<le> 50 \<Longrightarrow>
   (\<forall>c. cat = Some c \<longrightarrow> length c \<le> 100) \<Longrightarrow>
   store_row (new_pattern i t orig corr src cat rsn) = Inr (new_pattern i t orig corr src cat rsn)"
  by (cases cat)
     (simp_all add: store_row_def new_pattern_def pg_bind_def varchar_fits varchar_null_def
        integer_null_def int4_def)

lemma triple_new_pattern: "triple (new_pattern i t orig corr src cat rsn) = (orig, corr, src)"
  by (simp add: triple_def new_pattern_def)

text \<open>An update of the frequency changes no triple, so it keeps the index.\<close>

lemma bump_frequency_triples:
  "bump_frequency now t tbl = Inr tbl' \<Longrightarrow> map triple tbl' = map triple tbl"
proof (induction tbl arbitrary: tbl')
  case Nil
  then show ?case by simp
next
  case (Cons p ps)
  from Cons.prems obtain ps' where ps': "bump_frequency now t ps = Inr ps'"
    by (auto simp: pg_bind_def split: if_splits sum.splits)
  from Cons.prems ps' Cons.IH [OF ps'] show ?case
    by (auto simp: pg_bind_def triple_def split: if_splits sum.splits)
qed

lemma insert_row_unique:
  "idx_patterns_unique tbl \<Longrightarrow> insert_row r tbl = Inr tbl' \<Longrightarrow> idx_patterns_unique tbl'"
  by (auto simp: insert_row_def pg_bind_def idx_patterns_unique_def split: if_splits sum.splits)

lemma insert_on_conflict_do_nothing_unique:
  "idx_patterns_unique tbl \<Longrightarrow> insert_on_conflict_do_nothing r tbl = Inr tbl' \<Longrightarrow>
   idx_patterns_unique tbl'"
  by (auto simp: insert_on_conflict_do_nothing_def pg_bind_def idx_patterns_unique_def
      split: if_splits sum.splits)

lemma record_pattern_unique:
  "idx_patterns_unique tbl \<Longrightarrow> record_pattern i t orig corr src cat rsn tbl = Inr tbl' \<Longrightarrow>
   idx_patterns_unique tbl'"
  by (auto simp: record_pattern_def pg_bind_def idx_patterns_unique_def
      dest: bump_frequency_triples split: if_splits sum.splits)

text \<open>
  The insert of the sample data skips a row whose triple is there: the table, and so the
  frequency of the row, stays as it was.
\<close>

lemma seed_insert_existing:
  "store_row r = Inr r' \<Longrightarrow> triple r' \<in> set (map triple tbl) \<Longrightarrow>
   insert_on_conflict_do_nothing r tbl = Inr tbl"
  by (simp add: insert_on_conflict_do_nothing_def pg_bind_def)

text \<open>Every statement keeps the unique index, and so does every sequence of them.\<close>

lemma apply_store_op_unique:
  "idx_patterns_unique tbl \<Longrightarrow> idx_patterns_unique (apply_store_op op tbl)"
proof (cases "run_statement op tbl")
  case (Inl e)
  assume "idx_patterns_unique tbl"
  with Inl show ?thesis by (simp add: apply_store_op_def)
next
  case (Inr tbl')
  assume u: "idx_patterns_unique tbl"
  from Inr have "idx_patterns_unique tbl'"
    by (cases op)
       (auto intro: insert_row_unique [OF u] insert_on_conflict_do_nothing_unique [OF u]
          record_pattern_unique [OF u])
  with Inr show ?thesis by (simp add: apply_store_op_def)
qed

lemma run_store_unique:
  "idx_patterns_unique tbl \<Longrightarrow> idx_patterns_unique (run_store ops tbl)"
  by (induction ops arbitrary: tbl) (simp_all add: apply_store_op_unique)

text \<open>
  The update on rows whose frequency can take one more: only the rows of the triple
  change, and only in frequency and \<open>updated_at\<close>.
\<close>

lemma bump_frequency_in_range:
  "(\<forall>p \<in> set tbl. triple p = t \<longrightarrow> (\<exists>f. frequency p = Some f \<and> int4 (f + 1))) \<Longrightarrow>
   bump_frequency now t tbl =
     Inr (map (\<lambda>p. if triple p = t
                    then p\<lparr>frequency := map_option (\<lambda>f. f + 1) (frequency p), updated_at := now\<rparr>
                    else p) tbl)"
  by (induction tbl) (auto simp: pg_bind_def int4pl_def)

lemma map_unchanged:
  "t \<notin> set (map triple tbl) \<Longrightarrow> map (\<lambda>p. if triple p = t then g p else p) tbl = tbl"
  by (induction tbl) auto

text \<open>
  C3, as amended. In every table the store reaches from the empty one, two different
  rows differ in their (original, corrected, source) triple. For a submission whose
  strings fit their columns (500, 500 and 50 characters, 100 for the category):
  recording a triple that is there, in a row whose frequency can take one more within
  \<open>INTEGER\<close>, adds one to the frequency of that row, sets its \<open>updated_at\<close> and
  changes nothing else, so that no row is created; recording the same new triple twice
  adds one row, with frequency 2.
\<close>

theorem triple_unique_and_upsert:
  "(\<forall>i j. i < j \<and> j < length (run_store ops []) \<longrightarrow>
      triple (run_store ops [] ! i) \<noteq> triple (run_store ops [] ! j))
   \<and> (length orig \<le> 500 \<and> length corr \<le> 500 \<and> length src \<le> 50
       \<and> (\<forall>c. cat = Some c \<longrightarrow> length c \<le> 100)
       \<and> (orig, corr, src) \<in> set (map triple tbl)
       \<and> (\<forall>p \<in> set tbl. triple p = (orig, corr, src) \<longrightarrow>
             (\<exists>f. frequency p = Some f \<and> int4 (f + 1)))
       \<longrightarrow> record_pattern i1 t1 orig corr src cat rsn tbl =
             Inr (map (\<lambda>p. if triple p = (orig, corr, src)
                            then p\<lparr>frequency := map_option (\<lambda>f. f + 1) (frequency p),
                                   updated_at := t1\<rparr>
                            else p) tbl))
   \<and> (length orig \<le> 500 \<and> length corr \<le> 500 \<and> length src \<le> 50
       \<and> (\<forall>c. cat = Some c \<longrightarrow> length c \<le> 100)
       \<and> (\<forall>c. cat2 = Some c \<longrightarrow> length c \<le> 100)
       \<and> (orig, corr, src) \<notin> set (map triple tbl)
       \<longrightarrow> run_store [RecordPattern i1 t1 orig corr src cat rsn,
                       RecordPattern i2 t2 orig corr src cat2 rsn2] tbl =
             tbl @ [(new_pattern i1 t1 orig corr src cat rsn)
                      \<lparr>frequency := Some 2, updated_at := t2\<rparr>])"
proof (intro conjI impI)
  have "idx_patterns_unique (run_store ops [])"
    by (rule run_store_unique) (simp add: idx_patterns_unique_def)
  then have "distinct (map triple (run_store ops []))"
    by (simp add: idx_patterns_unique_def)
  then show "\<forall>i j. i < j \<and> j < length (run_store ops []) \<longrightarrow>
      triple (run_store ops [] ! i) \<noteq> triple (run_store ops [] ! j)"
    by (auto simp: distinct_conv_nth)
next
  assume h: "length orig \<le> 500 \<and> length corr \<le> 500 \<and> length src \<le> 50
       \<and> (\<forall>c. cat = Some c \<longrightarrow> length c \<le> 100)
       \<and> (orig, corr, src) \<in> set (map triple tbl)
       \<and> (\<forall>p \<in> set tbl. triple p = (orig, corr, src) \<longrightarrow>
             (\<exists>f. frequency p = Some f \<and> int4 (f + 1)))"
  then have st: "store_row (new_pattern i1 t1 orig corr src cat rsn)
      = Inr (new_pattern i1 t1 orig corr src cat rsn)"
    by (intro store_row_new_pattern) simp_all
  from h have b: "bump_frequency t1 (orig, corr, src) tbl =
     Inr (map (\<lambda>p. if triple p = (orig, corr, src)
                    then p\<lparr>frequency := map_option (\<lambda>f. f + 1) (frequency p), updated_at := t1\<rparr>
                    else p) tbl)"
    by (intro bump_frequency_in_range) simp
  from h have "(orig, corr, src) \<in> set (map triple tbl)" by simp
  then show "record_pattern i1 t1 orig corr src cat rsn tbl =
             Inr (map (\<lambda>p. if triple p = (orig, corr, src)
                            then p\<lparr>frequency := map_option (\<lambda>f. f + 1) (frequency p),
                                   updated_at := t1\<rparr>
                            else p) tbl)"
    unfolding record_pattern_def st pg_bind_def using b
    by (simp add: triple_new_pattern)
next
  assume h: "length orig \<le> 500 \<and> length corr \<le> 500 \<and> length src \<le> 50
       \<and> (\<forall>c. cat = Some c \<longrightarrow> length c \<le> 100)
       \<and> (\<forall>c. cat2 = Some c \<longrightarrow> length c \<le> 100)
       \<and> (orig, corr, src) \<notin> set (map triple tbl)"
  let ?n = "new_pattern i1 t1 orig corr src cat rsn"
  from h have st1: "store_row ?n = Inr ?n"
    by (intro store_row_new_pattern) simp_all
  from h have st2: "store_row (new_pattern i2 t2 orig corr src cat2 rsn2)
      = Inr (new_pattern i2 t2 orig corr src cat2 rsn2)"
    by (intro store_row_new_pattern) simp_all
  from h have fresh: "(orig, corr, src) \<notin> set (map triple tbl)" by simp
  have one: "record_pattern i1 t1 orig corr src cat rsn tbl = Inr (tbl @ [?n])"
    unfolding record_pattern_def st1 pg_bind_def using fresh
    by (simp add: triple_new_pattern)
  have "bump_frequency t2 (orig, corr, src) (tbl @ [?n]) =
     Inr (map (\<lambda>p. if triple p = (orig, corr, src)
                    then p\<lparr>frequency := map_option (\<lambda>f. f + 1) (frequency p), updated_at := t2\<rparr>
                    else p) (tbl @ [?n]))"
  proof (intro bump_frequency_in_range ballI impI)
    fix p assume "p \<in> set (tbl @ [?n])" and t: "triple p = (orig, corr, src)"
    with fresh have "p = ?n" by force
    then show "\<exists>f. frequency p = Some f \<and> int4 (f + 1)"
      by (simp add: new_pattern_def int4_def)
  qed
  then have two: "record_pattern i2 t2 orig corr src cat2 rsn2 (tbl @ [?n]) =
      Inr (tbl @ [?n\<lparr>frequency := Some 2, updated_at := t2\<rparr>])"
    unfolding record_pattern_def st2 pg_bind_def
    using map_unchanged [OF fresh]
    by (simp add: triple_new_pattern) (simp add: new_pattern_def)
  show "run_store [RecordPattern i1 t1 orig corr src cat rsn,
                       RecordPattern i2 t2 orig corr src cat2 rsn2] tbl =
             tbl @ [?n\<lparr>frequency := Some 2, updated_at := t2\<rparr>]"
    by (simp add: apply_store_op_def one two)
qed

theorem triple_unique_and_upsert_witness:
  "run_store [RecordPattern 1 10 ''a'' ''c'' ''image_pdf'' None None,
              InsertOnConflictDoNothing (new_pattern 2 11 ''a'' ''c'' ''image_pdf'' None None),
              RecordPattern 3 12 ''b'' ''c'' ''image_pdf'' None None] []
     = [new_pattern 1 10 ''a'' ''c'' ''image_pdf'' None None,
        new_pattern 3 12 ''b'' ''c'' ''image_pdf'' None None]
   \<and> triple (new_pattern 1 10 ''a'' ''c'' ''image_pdf'' None None)
       \<noteq> triple (new_pattern 3 12 ''b'' ''c'' ''image_pdf'' None None)
   \<and> run_store [RecordPattern 1 10 ''a'' ''c'' ''image_pdf'' None None,
                RecordPattern 2 11 ''a'' ''c'' ''image_pdf'' None None] []
       = [(new_pattern 1 10 ''a'' ''c'' ''image_pdf'' None None)
            \<lparr>frequency := Some 2, updated_at := 11\<rparr>]
   \<and> record_pattern 4 13 ''a'' ''c'' ''image_pdf'' None None
        [new_pattern 1 10 ''a'' ''c'' ''image_pdf'' None None,
         new_pattern 3 12 ''b'' ''c'' ''image_pdf'' None None]
       = Inr [(new_pattern 1 10 ''a'' ''c'' ''image_pdf'' None None)
                \<lparr>frequency := Some 2, updated_at := 13\<rparr>,
              new_pattern 3 12 ''b'' ''c'' ''image_pdf'' None None]"
proof -
  let ?a = "new_pattern 1 10 ''a'' ''c'' ''image_pdf'' None None"
  let ?b = "new_pattern 3 12 ''b'' ''c'' ''image_pdf'' None None"
  let ?ops = "[RecordPattern 1 10 ''a'' ''c'' ''image_pdf'' None None,
              InsertOnConflictDoNothing (new_pattern 2 11 ''a'' ''c'' ''image_pdf'' None None),
              RecordPattern 3 12 ''b'' ''c'' ''image_pdf'' None None]"
  note defs = apply_store_op_def record_pattern_def insert_on_conflict_do_nothing_def
    store_row_def pg_bind_def varchar_def varchar_null_def integer_null_def int4_def
    new_pattern_def triple_def
  have r: "run_store ?ops [] = [?a, ?b]"
    by (simp add: defs)
  have len: "(0::nat) < 1 \<and> 1 < length (run_store ?ops [])"
    unfolding r by simp
  have "triple (run_store ?ops [] ! 0) \<noteq> triple (run_store ?ops [] ! 1)"
    using triple_unique_and_upsert [of ?ops] len by blast
  then have d: "triple ?a \<noteq> triple ?b"
    unfolding r by simp
  have fits: "length ''a'' \<le> 500 \<and> length ''c'' \<le> 500 \<and> length ''image_pdf'' \<le> 50
      \<and> (\<forall>c. (None :: string option) = Some c \<longrightarrow> length c \<le> 100)"
    by simp
  have fresh: "(''a'', ''c'', ''image_pdf'') \<notin> set (map triple [])"
    by simp
  have twice: "run_store [RecordPattern 1 10 ''a'' ''c'' ''image_pdf'' None None,
                RecordPattern 2 11 ''a'' ''c'' ''image_pdf'' None None] []
       = [] @ [?a\<lparr>frequency := Some 2, updated_at := 11\<rparr>]"
    using triple_unique_and_upsert
      [of _ "''a''" "''c''" "''image_pdf''" None "[]" 1 10 None None 2 11 None] fits fresh
    by blast
  have present: "(''a'', ''c'', ''image_pdf'') \<in> set (map triple [?a, ?b])
      \<and> (\<forall>p \<in> set [?a, ?b]. triple p = (''a'', ''c'', ''image_pdf'') \<longrightarrow>
             (\<exists>f. frequency p = Some f \<and> int4 (f + 1)))"
    by (simp add: new_pattern_def triple_def int4_def)
  have again: "record_pattern 4 13 ''a'' ''c'' ''image_pdf'' None None [?a, ?b] =
      Inr (map (\<lambda>p. if triple p = (''a'', ''c'', ''image_pdf'')
                      then p\<lparr>frequency := map_option (\<lambda>f. f + 1) (frequency p),
                             updated_at := 13\<rparr>
                      else p) [?a, ?b])"
    using triple_unique_and_upsert
      [of _ "''a''" "''c''" "''image_pdf''" None "[?a, ?b]" 4 13 None] fits present
    by blast
  have again': "record_pattern 4 13 ''a'' ''c'' ''image_pdf'' None None [?a, ?b] =
      Inr [?a\<lparr>frequency := Some 2, updated_at := 13\<rparr>, ?b]"
    unfolding again by (simp add: new_pattern_def triple_def)
  show ?thesis
    using r d twice again' by simp
qed

text \<open>
  C3 as stated fails where a column's type excludes the value. An original of 501
  characters is rejected by the insert ("value too long"), so that submitting its triple
  twice leaves no row for it, not one row with frequency 2. And a row whose frequency is
  the largest \<open>INTEGER\<close> cannot be incremented: submitting its triple again raises
  "integer out of range" and leaves the row as it was.
\<close>

theorem triple_upsert_counterexample:
  "length (replicate 501 CHR ''a'') = 501
   \<and> record_pattern 1 10 (replicate 501 CHR ''a'') ''c'' ''image_pdf'' None None []
       = Inl string_data_right_truncation
   \<and> run_store [RecordPattern 1 10 (replicate 501 CHR ''a'') ''c'' ''image_pdf'' None None,
                RecordPattern 2 11 (replicate 501 CHR ''a'') ''c'' ''image_pdf'' None None] []
       = []
   \<and> triple maxed_pattern = (''g'', ''je1jo'', ''image_pdf'')
   \<and> frequency maxed_pattern = Some 2147483647
   \<and> int4 2147483647
   \<and> record_pattern 2 11 ''g'' ''je1jo'' ''image_pdf'' None None [maxed_pattern]
       = Inl numeric_value_out_of_range
   \<and> run_store [RecordPattern 2 11 ''g'' ''je1jo'' ''image_pdf'' None None] [maxed_pattern]
       = [maxed_pattern]"
proof -
  have long: "varchar 500 (replicate 501 CHR ''a'') = Inl string_data_right_truncation"
    by (simp add: varchar_def list_all_iff)
  have a: "\<And>i t. record_pattern i t (replicate 501 CHR ''a'') ''c'' ''image_pdf'' None None []
       = Inl string_data_right_truncation"
    by (simp add: record_pattern_def store_row_def new_pattern_def pg_bind_def long)
  have b: "record_pattern 2 11 ''g'' ''je1jo'' ''image_pdf'' None None [maxed_pattern]
       = Inl numeric_value_out_of_range"
    by (simp add: record_pattern_def store_row_def new_pattern_def pg_bind_def varchar_def
        varchar_null_def integer_null_def int4_def int4pl_def triple_def maxed_pattern_def
        sample_pattern_def)
  have c: "triple maxed_pattern = (''g'', ''je1jo'', ''image_pdf'')
      \<and> frequency maxed_pattern = Some 2147483647 \<and> int4 2147483647"
    by (simp add: maxed_pattern_def sample_pattern_def triple_def int4_def)
  show ?thesis
    using c by (simp add: apply_store_op_def a b)
qed

subsection \<open>The prompt builder\<close>

lemma ranks_before_key: "ranks_before a b \<longleftrightarrow> rank_key b \<le> rank_key a"
  by (auto simp: ranks_before_def rank_key_def less_eq_prod_def)

lemma sorted_ranked: "sorted_wrt ranks_before (ranked_patterns source tbl)"
proof -
  let ?xs = "filter (\<lambda>p. is_active p = Some True \<and> p_source p = source) tbl"
  have "sorted (map rank_key (sort_key rank_key ?xs))"
    by (rule sorted_sort_key)
  then have "sorted_wrt (\<lambda>a b. rank_key a \<le> rank_key b) (sort_key rank_key ?xs)"
    by (simp add: sorted_wrt_map)
  then have "sorted_wrt (\<lambda>a b. rank_key b \<le> rank_key a) (rev (sort_key rank_key ?xs))"
    by (simp add: sorted_wrt_rev)
  then show ?thesis
    by (simp add: ranked_patterns_def ranks_before_key [abs_def])
qed

lemma mset_ranked:
  "mset (ranked_patterns source tbl)
     = filter_mset (\<lambda>p. is_active p = Some True \<and> p_source p = source) (mset tbl)"
  by (simp add: ranked_patterns_def)

lemma mset_take_drop: "mset xs = mset (take n xs) + mset (drop n xs)"
  by (metis append_take_drop_id mset_append)

text \<open>
  C6. \<open>buildPrompt(source, limit)\<close> returns \<open>limit\<close> active patterns of the source (all of
  them if there are fewer), each at most as often as the table holds it. Every pattern
  returned ranks before every active pattern of the source that is left out, and the
  result is in ranking order: higher effectiveness first, and of two patterns with equal
  effectiveness the one used more recently first. Whenever the ranking view returns rows,
  every pattern returned has its row there, with its effectiveness as the score.
\<close>

theorem buildPrompt_top_ranked:
  "length (buildPrompt source limit tbl)
      = min limit (length (filter (\<lambda>p. is_active p = Some True \<and> p_source p = source) tbl))
   \<and> mset (buildPrompt source limit tbl)
        \<subseteq># filter_mset (\<lambda>p. is_active p = Some True \<and> p_source p = source) (mset tbl)
   \<and> (\<forall>p \<in> set (buildPrompt source limit tbl).
        \<forall>q \<in> set_mset (filter_mset (\<lambda>p. is_active p = Some True \<and> p_source p = source) (mset tbl)
                         - mset (buildPrompt source limit tbl)).
          effectiveness q < effectiveness p
          \<or> (effectiveness p = effectiveness q \<and> last_used q \<le> last_used p))
   \<and> (\<forall>i j. i < j \<and> j < length (buildPrompt source limit tbl) \<longrightarrow>
        effectiveness (buildPrompt source limit tbl ! j) < effectiveness (buildPrompt source limit tbl ! i)
        \<or> (effectiveness (buildPrompt source limit tbl ! i) = effectiveness (buildPrompt source limit tbl ! j)
            \<and> last_used (buildPrompt source limit tbl ! j) \<le> last_used (buildPrompt source limit tbl ! i)))
   \<and> (\<forall>rows. pattern_effectiveness_ranking tbl (Inr rows) \<longrightarrow>
        (\<forall>p \<in> set (buildPrompt source limit tbl).
           \<exists>r \<in> set rows. ranking_select p = Inr r \<and> effectiveness_score r = effectiveness p))"
proof (intro conjI)
  let ?L = "ranked_patterns source tbl"
  let ?C = "filter_mset (\<lambda>p. is_active p = Some True \<and> p_source p = source) (mset tbl)"
  let ?out = "buildPrompt source limit tbl"
  have len: "length ?L = length (filter (\<lambda>p. is_active p = Some True \<and> p_source p = source) tbl)"
    using mset_ranked [of source tbl] by (metis mset_filter size_mset)
  show "length ?out = min limit (length (filter (\<lambda>p. is_active p = Some True \<and> p_source p = source) tbl))"
    by (simp add: buildPrompt_def len min.commute)
  have split: "?C = mset ?out + mset (drop limit ?L)"
    unfolding buildPrompt_def mset_ranked [symmetric] by (rule mset_take_drop)
  show "mset ?out \<subseteq># ?C"
    unfolding split by simp
  have rest: "?C - mset ?out = mset (drop limit ?L)"
    unfolding split by simp
  have "sorted_wrt ranks_before (take limit ?L @ drop limit ?L)"
    using sorted_ranked [of source tbl] by simp
  then have "\<forall>p \<in> set (take limit ?L). \<forall>q \<in> set (drop limit ?L). ranks_before p q"
    unfolding sorted_wrt_append by blast
  then show "\<forall>p \<in> set ?out. \<forall>q \<in> set_mset (?C - mset ?out).
          effectiveness q < effectiveness p
          \<or> (effectiveness p = effectiveness q \<and> last_used q \<le> last_used p)"
    unfolding rest by (simp add: buildPrompt_def ranks_before_def)
  have "sorted_wrt ranks_before ?out"
    unfolding buildPrompt_def using sorted_ranked by (rule sorted_wrt_take)
  then show "\<forall>i j. i < j \<and> j < length ?out \<longrightarrow>
        effectiveness (?out ! j) < effectiveness (?out ! i)
        \<or> (effectiveness (?out ! i) = effectiveness (?out ! j)
            \<and> last_used (?out ! j) \<le> last_used (?out ! i))"
    by (simp add: sorted_wrt_iff_nth_less ranks_before_def)
  show "\<forall>rows. pattern_effectiveness_ranking tbl (Inr rows) \<longrightarrow>
        (\<forall>p \<in> set ?out. \<exists>r \<in> set rows. ranking_select p = Inr r \<and> effectiveness_score r = effectiveness p)"
  proof (intro allI impI ballI)
    fix rows p
    assume v: "pattern_effectiveness_ranking tbl (Inr rows)" and p: "p \<in> set ?out"
    from p have "p \<in> set ?L" unfolding buildPrompt_def by (rule in_set_takeD)
    then have "p \<in># mset ?L" by simp
    then have "p \<in> set tbl \<and> is_active p = Some True" unfolding mset_ranked by simp
    with view_pattern_row [OF v] obtain r where r: "r \<in> set rows" "ranking_select p = Inr r"
      by blast
    from ranking_select_Inr [OF r(2)] have "effectiveness_score r = effectiveness p"
      by (simp add: effectiveness_def)
    with r show "\<exists>r \<in> set rows. ranking_select p = Inr r \<and> effectiveness_score r = effectiveness p"
      by blast
  qed
qed

theorem buildPrompt_top_ranked_witness:
  "buildPrompt ''image_pdf'' 2 sample_table
     = [sample_pattern 1 ''a'' (Some 1) (Some 5) (Some 30) True,
        sample_pattern 4 ''d'' (Some 2) (Some 3) (Some 20) True]
   \<and> effectiveness (sample_pattern 1 ''a'' (Some 1) (Some 5) (Some 30) True) = Some 7
   \<and> effectiveness (sample_pattern 4 ''d'' (Some 2) (Some 3) (Some 20) True) = Some 7
   \<and> effectiveness (sample_pattern 2 ''b'' (Some 3) (Some 1) (Some 10) True) = Some 7
   \<and> last_used (sample_pattern 4 ''d'' (Some 2) (Some 3) (Some 20) True)
       \<le> last_used (sample_pattern 1 ''a'' (Some 1) (Some 5) (Some 30) True)
   \<and> last_used (sample_pattern 2 ''b'' (Some 3) (Some 1) (Some 10) True)
       \<le> last_used (sample_pattern 4 ''d'' (Some 2) (Some 3) (Some 20) True)
   \<and> pattern_effectiveness_ranking sample_table
        (Inr [sample_row 1 ''a'' (Some 1) (Some 5) (Some 7) (Some 30),
              sample_row 2 ''b'' (Some 3) (Some 1) (Some 7) (Some 10),
              sample_row 4 ''d'' (Some 2) (Some 3) (Some 7) (Some 20),
              sample_row 5 ''e'' (Some 0) (Some 1) (Some 1) None])
   \<and> ranking_select (sample_pattern 4 ''d'' (Some 2) (Some 3) (Some 20) True)
       = Inr (sample_row 4 ''d'' (Some 2) (Some 3) (Some 7) (Some 20))"
proof -
  let ?a = "sample_pattern 1 ''a'' (Some 1) (Some 5) (Some 30) True"
  let ?b = "sample_pattern 2 ''b'' (Some 3) (Some 1) (Some 10) True"
  let ?d = "sample_pattern 4 ''d'' (Some 2) (Some 3) (Some 20) True"
  let ?out = "buildPrompt ''image_pdf'' 2 sample_table"
  let ?rows = "[sample_row 1 ''a'' (Some 1) (Some 5) (Some 7) (Some 30),
              sample_row 2 ''b'' (Some 3) (Some 1) (Some 7) (Some 10),
              sample_row 4 ''d'' (Some 2) (Some 3) (Some 7) (Some 20),
              sample_row 5 ''e'' (Some 0) (Some 1) (Some 1) None]"
  note t = buildPrompt_top_ranked [of "''image_pdf''" 2 sample_table]
  have b: "?out = [?a, ?d]"
    by (simp add: buildPrompt_def ranked_patterns_def sample_table_def sample_pattern_def
        rank_key_def effectiveness_def less_eq_prod_def)
  have e: "effectiveness ?a = Some 7 \<and> effectiveness ?d = Some 7 \<and> effectiveness ?b = Some 7"
    by (simp add: effectiveness_def sample_pattern_def)
  have l: "(0::nat) < 1 \<and> 1 < length ?out"
    unfolding b by simp
  have "effectiveness (?out ! 1) < effectiveness (?out ! 0)
        \<or> (effectiveness (?out ! 0) = effectiveness (?out ! 1)
            \<and> last_used (?out ! 1) \<le> last_used (?out ! 0))"
    using t l by blast
  then have u: "last_used ?d \<le> last_used ?a"
    unfolding b using e by simp
  have din: "?d \<in> set ?out"
    unfolding b by simp
  have bout: "?b \<in> set_mset (filter_mset (\<lambda>p. is_active p = Some True \<and> p_source p = ''image_pdf'')
                         (mset sample_table) - mset ?out)"
    unfolding b by (simp add: in_diff_count sample_table_def sample_pattern_def)
  have "effectiveness ?b < effectiveness ?d
          \<or> (effectiveness ?d = effectiveness ?b \<and> last_used ?b \<le> last_used ?d)"
    using t din bout by blast
  then have c: "last_used ?b \<le> last_used ?d"
    using e by simp
  have v: "pattern_effectiveness_ranking sample_table (Inr ?rows)"
    by (simp add: pattern_effectiveness_ranking_def sample_table_def sample_pattern_def
        sample_row_def ranking_select_def pg_bind_def int4mul_def int4pl_def int4_def
        score_desc_def)
  have "\<exists>r \<in> set ?rows. ranking_select ?d = Inr r \<and> effectiveness_score r = effectiveness ?d"
    using t v din by blast
  then have s: "ranking_select ?d = Inr (sample_row 4 ''d'' (Some 2) (Some 3) (Some 7) (Some 20))"
    by (auto simp: sample_row_def sample_pattern_def ranking_select_def pg_bind_def int4mul_def
        int4pl_def int4_def)
  show ?thesis
    using b e u c v s by simp
qed


section \<open>Properties of the credit ledger\<close>

text \<open>
  The handler of the main process passes on what the credit manager printed, whenever an
  interpreter is found and the output parses.
\<close>

lemma check_credits_relays:
  "getPythonCommand env = Some pythonCmd \<Longrightarrow>
   JSON_parse env (check_output env pythonCmd pageCount) = Some result \<Longrightarrow>
   check_credits env pageCount = result"
  by (simp add: check_credits_def)

text \<open>
  C7. For an account whose email is on the allow-list, \<open>checkCredits\<close> authorizes whatever
  the page count and the balance, and \<open>debit\<close> leaves the account as it is.
\<close>

theorem admin_always_authorized_never_debited:
  "email a \<in> set (admin_emails cfg) \<longrightarrow>
     authorized (checkCredits cfg a pages) \<and> debit cfg a pages = a"
  by (simp add: checkCredits_def debit_def is_admin_def)

theorem admin_always_authorized_never_debited_witness:
  "email admin_account \<in> set (admin_emails sample_ledger)
   \<and> authorized (checkCredits sample_ledger admin_account 100)
   \<and> credits (debit sample_ledger admin_account 100) = 0
   \<and> \<not> authorized (checkCredits sample_ledger user_account 100)
   \<and> costEstimate (checkCredits sample_ledger user_account 100) = 5500"
proof -
  have h: "email admin_account \<in> set (admin_emails sample_ledger)"
    by (simp add: admin_account_def sample_ledger_def)
  have n: "\<not> authorized (checkCredits sample_ledger user_account 100)
     \<and> costEstimate (checkCredits sample_ledger user_account 100) = 5500"
    by (simp add: checkCredits_def is_admin_def user_account_def sample_ledger_def)
  have c: "credits admin_account = 0"
    by (simp add: admin_account_def)
  show ?thesis
    using admin_always_authorized_never_debited [of admin_account sample_ledger 100] h n c
    by simp
qed

end
